theory Spec2Isabelle
  imports Main "HOL-Library.Multiset"
begin

section \<open>JavaScript values\<close>

text \<open>
  The values the modelled methods handle: what \<^verbatim>\<open>JSON.parse\<close> can return, plus
  \<^verbatim>\<open>undefined\<close>, which a property read returns for an absent property. Numeric
  payloads play no role in the modelled code; integers stand for them. An object is the
  list of its own properties.
\<close>

datatype jsval =
    JUndefined
  | JNull
  | JBool bool
  | JNum int
  | JStr string
  | JArr "jsval list"
  | JObj "(string \<times> jsval) list"

text \<open>JavaScript's ToBoolean, used by \<^verbatim>\<open>if (x)\<close>, \<^verbatim>\<open>x || y\<close> and \<^verbatim>\<open>x ? a : b\<close>.\<close>

fun truthy :: "jsval \<Rightarrow> bool" where
  "truthy JUndefined = False"
| "truthy JNull = False"
| "truthy (JBool b) = b"
| "truthy (JNum n) = (n \<noteq> 0)"
| "truthy (JStr s) = (s \<noteq> [])"
| "truthy (JArr xs) = True"
| "truthy (JObj kvs) = True"

fun is_boolean :: "jsval \<Rightarrow> bool" where
  "is_boolean (JBool b) = True"
| "is_boolean v = False"

fun is_undefined :: "jsval \<Rightarrow> bool" where
  "is_undefined JUndefined = True"
| "is_undefined v = False"

text \<open>
  The property read \<^verbatim>\<open>v.name\<close> for the names the code reads (\<^verbatim>\<open>role\<close>,
  \<^verbatim>\<open>content\<close>, \<^verbatim>\<open>ok\<close>), none of which is inherited from a prototype:
  \<^verbatim>\<open>None\<close> is the TypeError raised on \<^verbatim>\<open>null\<close> and \<^verbatim>\<open>undefined\<close>.
\<close>

fun get_prop :: "jsval \<Rightarrow> string \<Rightarrow> jsval option" where
  "get_prop JUndefined name = None"
| "get_prop JNull name = None"
| "get_prop (JObj kvs) name =
     Some (case map_of kvs name of None \<Rightarrow> JUndefined | Some v \<Rightarrow> v)"
| "get_prop v name = Some JUndefined"

text \<open>
  What \<^verbatim>\<open>JSON.parse(JSON.stringify(v))\<close> gives back: a property whose value is
  \<^verbatim>\<open>undefined\<close> is left out of an object, and \<^verbatim>\<open>undefined\<close> in an array
  becomes \<^verbatim>\<open>null\<close>.
\<close>

fun json_roundtrip :: "jsval \<Rightarrow> jsval" where
  "json_roundtrip (JArr xs) =
     JArr (map (\<lambda>x. if is_undefined x then JNull else json_roundtrip x) xs)"
| "json_roundtrip (JObj kvs) =
     JObj (map (\<lambda>kv. (fst kv, json_roundtrip (snd kv)))
            (filter (\<lambda>kv. \<not> is_undefined (snd kv)) kvs))"
| "json_roundtrip v = v"

section \<open>Local storage\<close>

text \<open>
  A string kept under a key that the code reads with \<^verbatim>\<open>JSON.parse\<close> is represented
  by what the parser makes of it: \<^verbatim>\<open>EmptyText\<close> is the empty string (falsy, and not
  JSON), \<^verbatim>\<open>Unparsable\<close> a non-empty string on which \<^verbatim>\<open>JSON.parse\<close> throws a
  SyntaxError, and \<^verbatim>\<open>JsonText v\<close> a string that parses to \<^verbatim>\<open>v\<close>.
\<close>

datatype 'a stored = EmptyText | Unparsable | JsonText 'a

fun JSON_parse :: "'a stored \<Rightarrow> 'a option" where
  "JSON_parse (JsonText v) = Some v"
| "JSON_parse EmptyText = None"
| "JSON_parse Unparsable = None"

text \<open>\<^verbatim>\<open>JSON.stringify(undefined)\<close> is \<^verbatim>\<open>undefined\<close>, stored as the text "undefined".\<close>

definition JSON_stringify :: "jsval \<Rightarrow> jsval stored" where
  "JSON_stringify v = (if is_undefined v then Unparsable else JsonText (json_roundtrip v))"

fun nonempty_text :: "'a stored \<Rightarrow> bool" where
  "nonempty_text EmptyText = False"
| "nonempty_text Unparsable = True"
| "nonempty_text (JsonText v) = True"

section \<open>The chat page: \<^verbatim>\<open>ChatInterface\<close> and the browser state it touches\<close>

text \<open>
  One conversation summary of \<^verbatim>\<open>this.chatHistory\<close>. \<^verbatim>\<open>lastUpdated\<close> is the
  instant in milliseconds that \<^verbatim>\<open>new Date(c.lastUpdated)\<close> reads back from the ISO
  string \<^verbatim>\<open>new Date().toISOString()\<close> wrote; a bubble is one child of
  \<^verbatim>\<open>#chatMessages\<close> as \<^verbatim>\<open>updateChatHistory\<close> reads it.
\<close>

record summary_message =
  sender :: string
  sm_content :: string
  sm_timestamp :: string

record conversation =
  conv_id :: "string option"
  title :: string
  conv_messages :: "summary_message list"
  lastUpdated :: int

record bubble =
  is_user :: bool
  message_content :: "string option"
  message_timestamp :: "string option"

text \<open>
  The fields of \<^verbatim>\<open>this\<close> that the modelled methods use, followed by the parts of the
  browser they read and write: the \<^verbatim>\<open>.chat-messages\<close> element (the role and content
  of each appended message; \<^verbatim>\<open>None\<close> when the element is absent), the children of
  \<^verbatim>\<open>#chatMessages\<close>, the text of \<^verbatim>\<open>#currentChatTitle\<close>, the
  \<^verbatim>\<open>#api-status\<close> indicator (its class and the text of its \<^verbatim>\<open>.status-text\<close>
  child, if it has one), whether \<^verbatim>\<open>.chat-header\<close> exists, three local-storage keys,
  the start times of the health requests sent, and the number of them not yet settled.
  \<^verbatim>\<open>cache\<close> is \<^verbatim>\<open>None\<close> while \<^verbatim>\<open>this.cache\<close> is still undefined.
\<close>

record chat =
  currentChatId :: "string option"
  chatHistory :: "conversation list"
  apiAvailable :: jsval
  sessionId :: string
  messages :: jsval
  lastApiCheck :: int
  apiCheckInterval :: int
  cache :: "(string \<rightharpoonup> jsval) option"
  chat_messages_el :: "(jsval \<times> jsval) list option"
  chatMessages_el :: "bubble list option"
  currentChatTitle_el :: "string option"
  api_status_el :: "(string \<times> string option) option"
  chat_header_el :: bool
  ls_chat_session_id :: "string option"
  ls_chat_history :: "jsval stored option"
  ls_chatHistory :: "conversation list stored option"
  health_requests :: "int list"
  inflight :: nat

text \<open>How a call ends: it returns, or an exception leaves it; both carry the state reached.\<close>

datatype 'a completion = Returned 'a | Threw 'a

fun state_of :: "'a completion \<Rightarrow> 'a" where
  "state_of (Returned s) = s"
| "state_of (Threw s) = s"

subsection \<open>The transcript: \<^verbatim>\<open>addMessage\<close>, \<^verbatim>\<open>saveChatHistory\<close>, \<^verbatim>\<open>loadChatHistory\<close>\<close>

definition saveChatHistory :: "chat \<Rightarrow> chat" where
  "saveChatHistory s = s\<lparr>ls_chat_history := Some (JSON_stringify (messages s))\<rparr>"

definition new_message :: "jsval \<Rightarrow> jsval \<Rightarrow> string \<Rightarrow> jsval" where
  "new_message role content ts =
     JObj [(''role'', role), (''content'', content), (''timestamp'', JStr ts)]"

text \<open>
  \<^verbatim>\<open>addMessage(role, content)\<close>; \<^verbatim>\<open>ts\<close> is what \<^verbatim>\<open>new Date().toISOString()\<close>
  returns during the call. \<^verbatim>\<open>this.messages.push\<close> raises a TypeError when
  \<^verbatim>\<open>this.messages\<close> is not an array.
\<close>

definition addMessage :: "jsval \<Rightarrow> jsval \<Rightarrow> string \<Rightarrow> chat \<Rightarrow> chat completion" where
  "addMessage role content ts s =
     (case chat_messages_el s of
        None \<Rightarrow> Returned s
      | Some children \<Rightarrow>
          (let s1 = s\<lparr>chat_messages_el := Some (children @ [(role, content)])\<rparr> in
           case messages s1 of
             JArr ms \<Rightarrow>
               Returned (saveChatHistory (s1\<lparr>messages := JArr (ms @ [new_message role content ts])\<rparr>))
           | _ \<Rightarrow> Threw s1))"

text \<open>
  \<^verbatim>\<open>this.messages.forEach(msg => this.addMessage(msg.role, msg.content))\<close>: forEach
  visits the elements the array had when it started, in order; those that the callback
  pushes are not visited. \<^verbatim>\<open>clock k\<close> is the time string of the \<^verbatim>\<open>k\<close>-th
  callback.
\<close>

fun forEach_addMessage :: "(nat \<Rightarrow> string) \<Rightarrow> nat \<Rightarrow> jsval list \<Rightarrow> chat \<Rightarrow> chat completion" where
  "forEach_addMessage clock k [] s = Returned s"
| "forEach_addMessage clock k (msg # rest) s =
     (case get_prop msg ''role'' of
        None \<Rightarrow> Threw s
      | Some role \<Rightarrow>
          (case get_prop msg ''content'' of
             None \<Rightarrow> Threw s
           | Some content \<Rightarrow>
               (case addMessage role content (clock k) s of
                  Threw s' \<Rightarrow> Threw s'
                | Returned s' \<Rightarrow> forEach_addMessage clock (Suc k) rest s')))"

text \<open>
  \<^verbatim>\<open>loadChatHistory\<close>, the second definition in the class body (lines 762-772), which
  is the one the class ends up with. The \<^verbatim>\<open>catch\<close> only logs, so the call always
  returns, with the state reached when the exception was raised.
\<close>

definition loadChatHistory :: "(nat \<Rightarrow> string) \<Rightarrow> chat \<Rightarrow> chat" where
  "loadChatHistory clock s =
     (case ls_chat_history s of
        None \<Rightarrow> s
      | Some savedHistory \<Rightarrow>
          if \<not> nonempty_text savedHistory then s
          else (case JSON_parse savedHistory of
                  None \<Rightarrow> s
                | Some v \<Rightarrow>
                    (let s1 = s\<lparr>messages := v\<rparr> in
                     case v of
                       JArr xs \<Rightarrow> state_of (forEach_addMessage clock 0 xs s1)
                     | _ \<Rightarrow> s1)))"

text \<open>Lines 3-15 of the constructor; \<^verbatim>\<open>rnd\<close> is \<^verbatim>\<open>Math.random().toString(36)\<close>.\<close>

definition generateSessionId :: "string \<Rightarrow> chat \<Rightarrow> string \<times> chat" where
  "generateSessionId rnd s =
     (let sid = ''session_'' @ take 9 (drop 2 rnd)
      in (sid, s\<lparr>ls_chat_session_id := Some sid\<rparr>))"

definition constructor_fields :: "string \<Rightarrow> chat \<Rightarrow> chat" where
  "constructor_fields rnd s =
     (let s1 = s\<lparr>currentChatId := None, chatHistory := [], apiAvailable := JBool False\<rparr>;
          (sid, s2) = (case ls_chat_session_id s1 of
                         Some stored_id \<Rightarrow>
                           if stored_id \<noteq> [] then (stored_id, s1) else generateSessionId rnd s1
                       | None \<Rightarrow> generateSessionId rnd s1)
      in s2\<lparr>sessionId := sid, messages := JArr [], lastApiCheck := 0,
             apiCheckInterval := 30000, cache := None\<rparr>)"

subsection \<open>Backend reachability: \<^verbatim>\<open>fetchWithCache\<close>, \<^verbatim>\<open>checkApiAvailability\<close>\<close>

text \<open>
  What comes back for a request that was sent: \<^verbatim>\<open>fetch\<close> rejects, or
  \<^verbatim>\<open>response.json()\<close> rejects, or the body parses to a value. The HTTP status is
  not part of it: \<^verbatim>\<open>fetchWithCache\<close> returns the parsed body and drops the
  \<^verbatim>\<open>Response\<close>.
\<close>

datatype fetch_result = NetworkError | InvalidBody | Body jsval

definition health_url :: string where
  "health_url = ''http://localhost:5000/api/health''"

definition status_class :: "jsval \<Rightarrow> string" where
  "status_class v = ''status-indicator '' @ (if truthy v then ''online'' else ''offline'')"

definition status_label :: "jsval \<Rightarrow> string" where
  "status_label v = (if truthy v then ''Online'' else ''Offline'')"

text \<open>
  \<^verbatim>\<open>updateApiStatusIndicator\<close>: an existing \<^verbatim>\<open>#api-status\<close> without a
  \<^verbatim>\<open>.status-text\<close> child makes \<^verbatim>\<open>querySelector\<close> return null, and the
  assignment to its \<^verbatim>\<open>textContent\<close> raises a TypeError.
\<close>

definition updateApiStatusIndicator :: "chat \<Rightarrow> chat completion" where
  "updateApiStatusIndicator s =
     (case api_status_el s of
        None \<Rightarrow>
          if chat_header_el s
          then Returned (s\<lparr>api_status_el :=
                 Some (status_class (apiAvailable s), Some (status_label (apiAvailable s)))\<rparr>)
          else Returned s
      | Some (cls, child) \<Rightarrow>
          (case child of
             None \<Rightarrow> Threw (s\<lparr>api_status_el := Some (status_class (apiAvailable s), None)\<rparr>)
           | Some txt \<Rightarrow>
               Returned (s\<lparr>api_status_el :=
                 Some (status_class (apiAvailable s), Some (status_label (apiAvailable s)))\<rparr>)))"

text \<open>
  An async call, as far as it runs without waiting: it is over with a value, or over with
  a rejected promise, or suspended at an \<^verbatim>\<open>await\<close> on the network.
\<close>

datatype call = Finished chat jsval | Rejected chat | Awaiting chat

fun call_state :: "call \<Rightarrow> chat" where
  "call_state (Finished s v) = s"
| "call_state (Rejected s) = s"
| "call_state (Awaiting s) = s"

text \<open>
  \<^verbatim>\<open>fetchWithCache(url)\<close> up to its first \<^verbatim>\<open>await\<close>; \<^verbatim>\<open>now\<close> is the
  instant of the call, which the request log records. Reading \<^verbatim>\<open>this.cache[url]\<close>
  raises a TypeError while \<^verbatim>\<open>this.cache\<close> is undefined.
\<close>

datatype cache_lookup = CacheTypeError | CacheHit jsval | Requested chat

definition fetchWithCache_begin :: "string \<Rightarrow> int \<Rightarrow> chat \<Rightarrow> cache_lookup" where
  "fetchWithCache_begin url now s =
     (case cache s of
        None \<Rightarrow> CacheTypeError
      | Some c \<Rightarrow>
          (case c url of
             Some d \<Rightarrow>
               if truthy d then CacheHit d
               else Requested (s\<lparr>health_requests := health_requests s @ [now],
                                 inflight := Suc (inflight s)\<rparr>)
           | None \<Rightarrow>
               Requested (s\<lparr>health_requests := health_requests s @ [now],
                            inflight := Suc (inflight s)\<rparr>)))"

text \<open>The \<^verbatim>\<open>catch\<close> block of \<^verbatim>\<open>checkApiAvailability\<close>.\<close>

definition check_failed :: "chat \<Rightarrow> call" where
  "check_failed s =
     (case updateApiStatusIndicator (s\<lparr>apiAvailable := JBool False\<rparr>) of
        Threw s' \<Rightarrow> Rejected s'
      | Returned s' \<Rightarrow> Finished s' (JBool False))"

text \<open>
  The \<^verbatim>\<open>try\<close> block from \<^verbatim>\<open>this.apiAvailable = response.ok\<close> on, where
  \<^verbatim>\<open>response\<close> is what \<^verbatim>\<open>fetchWithCache\<close> returned.
\<close>

definition check_response :: "jsval \<Rightarrow> chat \<Rightarrow> call" where
  "check_response response s =
     (case get_prop response ''ok'' of
        None \<Rightarrow> check_failed s
      | Some ok \<Rightarrow>
          (case updateApiStatusIndicator (s\<lparr>apiAvailable := ok\<rparr>) of
             Threw s' \<Rightarrow> check_failed s'
           | Returned s' \<Rightarrow> Finished s' (apiAvailable s')))"

definition checkApiAvailability_begin :: "int \<Rightarrow> chat \<Rightarrow> call" where
  "checkApiAvailability_begin now s =
     (if now - lastApiCheck s < apiCheckInterval s \<and> lastApiCheck s \<noteq> 0
      then Finished s JUndefined
      else (let s1 = s\<lparr>lastApiCheck := now\<rparr> in
            case fetchWithCache_begin health_url now s1 of
              CacheTypeError \<Rightarrow> check_failed s1
            | CacheHit d \<Rightarrow> check_response d s1
            | Requested s2 \<Rightarrow> Awaiting s2))"

text \<open>
  The rest of a suspended call, run when its request settles: the remainder of
  \<^verbatim>\<open>fetchWithCache\<close> (which stores the body in the cache) and then of
  \<^verbatim>\<open>checkApiAvailability\<close>.
\<close>

definition checkApiAvailability_settle :: "fetch_result \<Rightarrow> chat \<Rightarrow> call" where
  "checkApiAvailability_settle r s =
     (let s1 = s\<lparr>inflight := inflight s - 1\<rparr> in
      case r of
        NetworkError \<Rightarrow> check_failed s1
      | InvalidBody \<Rightarrow> check_failed s1
      | Body d \<Rightarrow>
          (case cache s1 of
             None \<Rightarrow> check_failed s1
           | Some c \<Rightarrow> check_response d (s1\<lparr>cache := Some (c(health_url \<mapsto> d))\<rparr>)))"

text \<open>A call that nothing else interleaves with: \<^verbatim>\<open>r\<close> settles its request, if it sends one.\<close>

definition checkApiAvailability :: "int \<Rightarrow> fetch_result \<Rightarrow> chat \<Rightarrow> call" where
  "checkApiAvailability now r s =
     (case checkApiAvailability_begin now s of
        Awaiting s' \<Rightarrow> checkApiAvailability_settle r s'
      | done \<Rightarrow> done)"

text \<open>
  What happens on the page's event loop, as far as the health check goes: a call of
  \<^verbatim>\<open>checkApiAvailability\<close> starts when the clock reads \<^verbatim>\<open>t\<close>, or a request
  in flight settles.
\<close>

datatype check_event = Invoke int | Settle fetch_result

fun check_step :: "chat \<Rightarrow> check_event \<Rightarrow> chat" where
  "check_step s (Invoke t) = call_state (checkApiAvailability_begin t s)"
| "check_step s (Settle r) =
     (if inflight s = 0 then s else call_state (checkApiAvailability_settle r s))"

definition check_run :: "check_event list \<Rightarrow> chat \<Rightarrow> chat" where
  "check_run evs s = foldl check_step s evs"

fun invoke_times :: "check_event list \<Rightarrow> int list" where
  "invoke_times [] = []"
| "invoke_times (Invoke t # evs) = t # invoke_times evs"
| "invoke_times (Settle r # evs) = invoke_times evs"

subsection \<open>Conversation summaries: \<^verbatim>\<open>updateChatHistory\<close>\<close>

text \<open>
  One element of the \<^verbatim>\<open>map\<close> over the children of \<^verbatim>\<open>#chatMessages\<close>;
  \<^verbatim>\<open>None\<close> is the TypeError of reading \<^verbatim>\<open>innerHTML\<close> or
  \<^verbatim>\<open>textContent\<close> of null.
\<close>

definition read_bubble :: "bubble \<Rightarrow> summary_message option" where
  "read_bubble b =
     (case message_content b of
        None \<Rightarrow> None
      | Some c \<Rightarrow>
          (case message_timestamp b of
             None \<Rightarrow> None
           | Some t \<Rightarrow>
               Some \<lparr>sender = (if is_user b then ''user'' else ''assistant''),
                     sm_content = c, sm_timestamp = t\<rparr>))"

fun read_bubbles :: "bubble list \<Rightarrow> summary_message list option" where
  "read_bubbles [] = Some []"
| "read_bubbles (b # bs) =
     (case read_bubble b of
        None \<Rightarrow> None
      | Some m \<Rightarrow> (case read_bubbles bs of None \<Rightarrow> None | Some ms \<Rightarrow> Some (m # ms)))"

fun findIndex :: "('a \<Rightarrow> bool) \<Rightarrow> 'a list \<Rightarrow> nat option" where
  "findIndex P [] = None"
| "findIndex P (x # xs) =
     (if P x then Some 0 else (case findIndex P xs of None \<Rightarrow> None | Some i \<Rightarrow> Some (Suc i)))"

text \<open>
  \<^verbatim>\<open>.sort((a, b) => new Date(b.lastUpdated) - new Date(a.lastUpdated))\<close>: a stable
  sort, latest first.
\<close>

definition sort_recent_first :: "conversation list \<Rightarrow> conversation list" where
  "sort_recent_first h = sort_key (\<lambda>c. - lastUpdated c) h"

text \<open>The history with the current conversation replaced in place or pushed at the end.\<close>

definition upsert_current :: "conversation \<Rightarrow> chat \<Rightarrow> conversation list" where
  "upsert_current entry s =
     (case findIndex (\<lambda>c. conv_id c = currentChatId s) (chatHistory s) of
        Some i \<Rightarrow> (chatHistory s)[i := entry]
      | None \<Rightarrow> chatHistory s @ [entry])"

text \<open>
  \<^verbatim>\<open>updateChatHistory\<close>; \<^verbatim>\<open>now\<close> is the instant of \<^verbatim>\<open>new Date()\<close>. The
  closing \<^verbatim>\<open>updateChatHistoryList\<close> only redraws \<^verbatim>\<open>#chatHistoryList\<close>, and
  the \<^verbatim>\<open>catch\<close> only logs.
\<close>

definition updateChatHistory :: "int \<Rightarrow> chat \<Rightarrow> chat" where
  "updateChatHistory now s =
     (case chatMessages_el s of
        None \<Rightarrow> s
      | Some children \<Rightarrow>
          (case read_bubbles children of
             None \<Rightarrow> s
           | Some msgs \<Rightarrow>
               (let chat_title = (case currentChatTitle_el s of Some t \<Rightarrow> t | None \<Rightarrow> ''New Chat'') in
                if length msgs \<le> 1 then s
                else (let entry = \<lparr>conv_id = currentChatId s, title = chat_title,
                                    conv_messages = msgs, lastUpdated = now\<rparr>;
                          h = take 20 (sort_recent_first (upsert_current entry s))
                      in s\<lparr>chatHistory := h, ls_chatHistory := Some (JsonText h)\<rparr>))))"

text \<open>
  A history of \<^verbatim>\<open>n\<close> conversations as earlier calls leave it, latest first: the
  conversation numbered \<^verbatim>\<open>k\<close> was last updated at \<^verbatim>\<open>1000 * k\<close>.
\<close>

primrec sample_history :: "nat \<Rightarrow> conversation list" where
  "sample_history 0 = []"
| "sample_history (Suc n) =
     \<lparr>conv_id = Some (replicate (Suc n) CHR ''c''), title = ''New Chat'',
      conv_messages = [], lastUpdated = 1000 * int (Suc n)\<rparr> # sample_history n"

subsection \<open>Construction and page loads\<close>

text \<open>
  \<^verbatim>\<open>new ChatInterface()\<close> when the clock reads \<^verbatim>\<open>now\<close>. The set-up methods
  of lines 16 and 18-21 install listeners and test every element they use. The call of
  \<^verbatim>\<open>checkApiAvailability\<close> on line 22 runs while \<^verbatim>\<open>this.cache\<close> is still
  undefined; the rest of that call touches other fields than line 23 does, so it is run
  here before line 23.
\<close>

definition new_ChatInterface :: "string \<Rightarrow> (nat \<Rightarrow> string) \<Rightarrow> int \<Rightarrow> chat \<Rightarrow> chat" where
  "new_ChatInterface rnd clock now s =
     (let s1 = constructor_fields rnd s;
          s2 = loadChatHistory clock s1;
          s3 = call_state (checkApiAvailability_begin now s2)
      in s3\<lparr>cache := Some Map.empty\<rparr>)"

text \<open>
  A browser that has not visited the page before: empty local storage, nothing sent, and
  a document with an empty \<^verbatim>\<open>.chat-messages\<close> element and a
  \<^verbatim>\<open>.chat-header\<close>. The fields of \<^verbatim>\<open>this\<close> are those the constructor
  starts from.
\<close>

definition first_visit :: chat where
  "first_visit =
     \<lparr>currentChatId = None, chatHistory = [], apiAvailable = JBool False, sessionId = [],
      messages = JArr [], lastApiCheck = 0, apiCheckInterval = 30000, cache = None,
      chat_messages_el = Some [], chatMessages_el = None, currentChatTitle_el = None,
      api_status_el = None, chat_header_el = True,
      ls_chat_session_id = None, ls_chat_history = None, ls_chatHistory = None,
      health_requests = [], inflight = 0\<rparr>"

text \<open>
  Loading the page again: the document is the served one again, local storage is what
  the last visit left, and a new \<^verbatim>\<open>ChatInterface\<close> is constructed.
\<close>

definition reload :: "string \<Rightarrow> (nat \<Rightarrow> string) \<Rightarrow> int \<Rightarrow> chat \<Rightarrow> chat" where
  "reload rnd clock now s =
     new_ChatInterface rnd clock now
       (s\<lparr>chat_messages_el := chat_messages_el first_visit,
          chatMessages_el := chatMessages_el first_visit,
          currentChatTitle_el := currentChatTitle_el first_visit,
          api_status_el := api_status_el first_visit,
          chat_header_el := chat_header_el first_visit,
          inflight := 0\<rparr>)"

section \<open>The document page: \<^verbatim>\<open>DocumentProcessor\<close>\<close>

text \<open>
  A control that \<^verbatim>\<open>showLoading\<close> and \<^verbatim>\<open>hideLoading\<close> act on: whether its class
  list has \<^verbatim>\<open>loading\<close>, and its \<^verbatim>\<open>disabled\<close> property.
\<close>

record button =
  loading :: bool
  disabled :: bool

text \<open>A result container: absent from the page, present, or showing a result.\<close>

datatype panel = Absent | Blank | Showing jsval

text \<open>
  The argument of \<^verbatim>\<open>showError\<close>: a value taken from \<^verbatim>\<open>this.translations\<close> or a
  built-in text, or (\<^verbatim>\<open>ErrorNotice p\<close>) the text \<^verbatim>\<open>p\<close> followed by the message
  of the exception that was caught.
\<close>

datatype notice = Notice jsval | ErrorNotice string

datatype request =
    AnalyzeRequest string string string string
  | GenerateRequest string string string "(string \<times> string) list"
  | AudioRequest jsval

text \<open>
  The fields of \<^verbatim>\<open>this\<close> and the parts of the page that the two handlers use:
  the \<^verbatim>\<open>value\<close> of each form control by element id (\<^verbatim>\<open>None\<close> when
  \<^verbatim>\<open>getElementById\<close> returns null), the controls that carry a loading state, whether
  \<^verbatim>\<open>.main-card\<close> can take an alert, the alerts shown, the two result containers,
  and the requests sent.
\<close>

record doc_page =
  this_translations :: jsval
  currentLanguage :: string
  currentJurisdiction :: string
  field_values :: "string \<rightharpoonup> string"
  buttons :: "string \<rightharpoonup> button"
  main_card_el :: bool
  alerts :: "notice list"
  analysis_result_el :: panel
  generated_document_el :: panel
  requests :: "request list"

record template_param =
  param_id :: string
  param_label :: string
  param_type :: string

text \<open>
  Names that every object literal inherits from \<^verbatim>\<open>Object.prototype\<close>: the lookup
  \<^verbatim>\<open>parameters[templateKey]\<close> finds a truthy value that is not an array there.
\<close>

definition object_prototype_names :: "string list" where
  "object_prototype_names =
     [''constructor'', ''toString'', ''toLocaleString'', ''valueOf'', ''hasOwnProperty'',
      ''isPrototypeOf'', ''propertyIsEnumerable'', ''__proto__'', ''__defineGetter__'',
      ''__defineSetter__'', ''__lookupGetter__'', ''__lookupSetter__'']"

text \<open>
  \<^verbatim>\<open>getTemplateParameters(templateKey)\<close>; \<^verbatim>\<open>None\<close> stands for an inherited
  value, on which the callers' \<^verbatim>\<open>forEach\<close> raises a TypeError.
\<close>

definition getTemplateParameters :: "string \<Rightarrow> template_param list option" where
  "getTemplateParameters templateKey =
     (if templateKey = ''nda'' then Some
        [\<lparr>param_id = ''party1'', param_label = ''First Party Name'', param_type = ''text''\<rparr>,
         \<lparr>param_id = ''party2'', param_label = ''Second Party Name'', param_type = ''text''\<rparr>,
         \<lparr>param_id = ''confidentiality_period'',
           param_label = ''Confidentiality Period (months)'', param_type = ''number''\<rparr>,
         \<lparr>param_id = ''purpose'', param_label = ''Purpose of Agreement'', param_type = ''text''\<rparr>]
      else if templateKey = ''contract'' then Some
        [\<lparr>param_id = ''party1'', param_label = ''First Party Name'', param_type = ''text''\<rparr>,
         \<lparr>param_id = ''party2'', param_label = ''Second Party Name'', param_type = ''text''\<rparr>,
         \<lparr>param_id = ''service_description'', param_label = ''Service Description'',
           param_type = ''text''\<rparr>,
         \<lparr>param_id = ''payment_amount'', param_label = ''Payment Amount'', param_type = ''number''\<rparr>,
         \<lparr>param_id = ''payment_terms'', param_label = ''Payment Terms'', param_type = ''text''\<rparr>]
      else if templateKey = ''will'' then Some
        [\<lparr>param_id = ''testator_name'', param_label = ''Testator Name'', param_type = ''text''\<rparr>,
         \<lparr>param_id = ''executor_name'', param_label = ''Executor Name'', param_type = ''text''\<rparr>,
         \<lparr>param_id = ''beneficiaries'', param_label = ''Beneficiaries (comma-separated)'',
           param_type = ''text''\<rparr>,
         \<lparr>param_id = ''assets'', param_label = ''Assets to Distribute'', param_type = ''text''\<rparr>]
      else if templateKey \<in> set object_prototype_names then None
      else Some [])"

definition showLoading :: "string \<Rightarrow> doc_page \<Rightarrow> doc_page" where
  "showLoading elementId s =
     (case buttons s elementId of
        None \<Rightarrow> s
      | Some b \<Rightarrow> s\<lparr>buttons := (buttons s)(elementId \<mapsto> b\<lparr>loading := True, disabled := True\<rparr>)\<rparr>)"

definition hideLoading :: "string \<Rightarrow> doc_page \<Rightarrow> doc_page" where
  "hideLoading elementId s =
     (case buttons s elementId of
        None \<Rightarrow> s
      | Some b \<Rightarrow> s\<lparr>buttons := (buttons s)(elementId \<mapsto> b\<lparr>loading := False, disabled := False\<rparr>)\<rparr>)"

text \<open>
  \<^verbatim>\<open>showError\<close> of \<^verbatim>\<open>DocumentProcessor\<close>: \<^verbatim>\<open>insertBefore\<close> on a missing
  \<^verbatim>\<open>.main-card\<close> raises a TypeError.
\<close>

definition showError :: "notice \<Rightarrow> doc_page \<Rightarrow> doc_page completion" where
  "showError message s =
     (if main_card_el s then Returned (s\<lparr>alerts := alerts s @ [message]\<rparr>) else Threw s)"

text \<open>\<^verbatim>\<open>this.translations?.key || fallback\<close>.\<close>

definition translated :: "doc_page \<Rightarrow> string \<Rightarrow> notice \<Rightarrow> notice" where
  "translated s key fallback =
     (case get_prop (this_translations s) key of
        None \<Rightarrow> fallback
      | Some v \<Rightarrow> if truthy v then Notice v else fallback)"

text \<open>
  \<^verbatim>\<open>String.prototype.trim\<close> leaves the empty string exactly when every character is
  white space or a line terminator. A \<^verbatim>\<open>char\<close> is a code unit below 256; of
  JavaScript's white space and line terminators those are tab, line feed, vertical tab,
  form feed, carriage return, space and the no-break space U+00A0.
\<close>

definition is_space :: "char \<Rightarrow> bool" where
  "is_space c =
     (c \<in> set [CHR '' '', CHR 0x09, CHR 0x0A, CHR 0x0B, CHR 0x0C, CHR 0x0D, CHR 0xA0])"

definition blank :: "string \<Rightarrow> bool" where
  "blank str = list_all is_space str"

text \<open>
  \<^verbatim>\<open>offerAudioVersion(text)\<close> as far as the handlers, which do not await it, see it:
  it sends its request. What it does later is inside its own \<^verbatim>\<open>try\<close> and touches
  \<^verbatim>\<open>#audio-player\<close> only.
\<close>

definition offerAudioVersion :: "jsval \<Rightarrow> doc_page \<Rightarrow> doc_page" where
  "offerAudioVersion text s = s\<lparr>requests := requests s @ [AudioRequest text]\<rparr>"

fun is_array :: "jsval \<Rightarrow> bool" where
  "is_array (JArr xs) = True"
| "is_array v = False"

text \<open>
  \<^verbatim>\<open>displayAnalysis(result)\<close>: a TypeError when the container is missing, when
  \<^verbatim>\<open>result\<close> is null, or when \<^verbatim>\<open>key_points\<close> or \<^verbatim>\<open>potential_issues\<close>
  has no \<^verbatim>\<open>map\<close>.
\<close>

definition displayAnalysis :: "jsval \<Rightarrow> doc_page \<Rightarrow> doc_page completion" where
  "displayAnalysis result s =
     (if analysis_result_el s = Absent then Threw s
      else (case get_prop result ''key_points'' of
              None \<Rightarrow> Threw s
            | Some kp \<Rightarrow>
                (case get_prop result ''potential_issues'' of
                   None \<Rightarrow> Threw s
                 | Some issues \<Rightarrow>
                     if is_array kp \<and> is_array issues
                     then Returned (s\<lparr>analysis_result_el := Showing result\<rparr>)
                     else Threw s)))"

definition displayGeneratedDocument :: "jsval \<Rightarrow> doc_page \<Rightarrow> doc_page completion" where
  "displayGeneratedDocument result s =
     (if generated_document_el s = Absent then Threw s
      else (case get_prop result ''document'' of
              None \<Rightarrow> Threw s
            | Some d \<Rightarrow> Returned (s\<lparr>generated_document_el := Showing result\<rparr>)))"

text \<open>
  \<^verbatim>\<open>catch\<close> and \<^verbatim>\<open>finally\<close> of both handlers: the alert, then
  \<^verbatim>\<open>hideLoading\<close> whether or not \<^verbatim>\<open>showError\<close> itself raised.
\<close>

definition catch_finally :: "string \<Rightarrow> notice \<Rightarrow> doc_page \<Rightarrow> doc_page completion" where
  "catch_finally elementId message s =
     (case showError message s of
        Threw s' \<Rightarrow> Threw (hideLoading elementId s')
      | Returned s' \<Rightarrow> Returned (hideLoading elementId s'))"

text \<open>\<^verbatim>\<open>handleDocumentAnalysis\<close>; \<^verbatim>\<open>r\<close> is what comes back for its request.\<close>

definition handleDocumentAnalysis :: "fetch_result \<Rightarrow> doc_page \<Rightarrow> doc_page completion" where
  "handleDocumentAnalysis r s =
     (case field_values s ''document-text'' of None \<Rightarrow> Threw s | Some documentText \<Rightarrow>
      case field_values s ''document-type'' of None \<Rightarrow> Threw s | Some documentType \<Rightarrow>
      case field_values s ''document-jurisdiction'' of None \<Rightarrow> Threw s | Some jurisdiction \<Rightarrow>
      case field_values s ''document-language'' of None \<Rightarrow> Threw s | Some language \<Rightarrow>
        if blank documentText
        then showError (translated s ''pleaseEnterDocument''
               (Notice (JStr ''Please enter or upload a document to analyze''))) s
        else (let s1 = showLoading ''analyze-document'' s;
                  s2 = s1\<lparr>requests := requests s1 @
                         [AnalyzeRequest documentText documentType
                            (if jurisdiction \<noteq> [] then jurisdiction else currentJurisdiction s1)
                            (if language \<noteq> [] then language else currentLanguage s1)]\<rparr>;
                  failed = catch_finally ''analyze-document''
                             (translated s2 ''errorAnalyzingDocument''
                                (ErrorNotice ''Error analyzing document: ''))
              in case r of
                   NetworkError \<Rightarrow> failed s2
                 | InvalidBody \<Rightarrow> failed s2
                 | Body result \<Rightarrow>
                     (case displayAnalysis result s2 of
                        Threw s3 \<Rightarrow> failed s3
                      | Returned s3 \<Rightarrow>
                          (case get_prop result ''summary'' of
                             None \<Rightarrow> failed s3
                           | Some summary \<Rightarrow>
                               Returned (hideLoading ''analyze-document''
                                           (offerAudioVersion summary s3))))))"

text \<open>
  The \<^verbatim>\<open>forEach\<close> that collects the parameters: a missing control raises a
  TypeError, an empty value makes the callback throw; \<^verbatim>\<open>None\<close> is either.
\<close>

fun collect_parameters :: "doc_page \<Rightarrow> template_param list \<Rightarrow> (string \<times> string) list option" where
  "collect_parameters s [] = Some []"
| "collect_parameters s (p # ps) =
     (case field_values s (param_id p) of
        None \<Rightarrow> None
      | Some v \<Rightarrow>
          if v = [] then None
          else (case collect_parameters s ps of
                  None \<Rightarrow> None
                | Some rest \<Rightarrow> Some ((param_id p, v) # rest)))"

text \<open>
  \<^verbatim>\<open>handleDocumentGeneration\<close>. The parameters are collected before the
  \<^verbatim>\<open>try\<close>, so an exception there leaves the handler at once.
\<close>

definition handleDocumentGeneration :: "fetch_result \<Rightarrow> doc_page \<Rightarrow> doc_page completion" where
  "handleDocumentGeneration r s =
     (case field_values s ''template-select'' of None \<Rightarrow> Threw s | Some templateKey \<Rightarrow>
      case field_values s ''jurisdiction'' of None \<Rightarrow> Threw s | Some jurisdiction \<Rightarrow>
      case field_values s ''document-language'' of None \<Rightarrow> Threw s | Some language \<Rightarrow>
        if templateKey = [] \<or> jurisdiction = []
        then showError (translated s ''pleaseSelectTemplateAndJurisdiction''
               (Notice (JStr ''Please select a template and specify jurisdiction''))) s
        else (case getTemplateParameters templateKey of
                None \<Rightarrow> Threw s
              | Some params \<Rightarrow>
                  (case collect_parameters s params of
                     None \<Rightarrow> Threw s
                   | Some parameters \<Rightarrow>
                       (let s1 = showLoading ''generate-document'' s;
                            s2 = s1\<lparr>requests := requests s1 @
                                   [GenerateRequest templateKey jurisdiction
                                      (if language \<noteq> [] then language else currentLanguage s1)
                                      parameters]\<rparr>;
                            failed = catch_finally ''generate-document''
                                       (translated s2 ''errorGeneratingDocument''
                                          (ErrorNotice ''Error generating document: ''))
                        in case r of
                             NetworkError \<Rightarrow> failed s2
                           | InvalidBody \<Rightarrow> failed s2
                           | Body result \<Rightarrow>
                               (case displayGeneratedDocument result s2 of
                                  Threw s3 \<Rightarrow> failed s3
                                | Returned s3 \<Rightarrow>
                                    (case get_prop result ''document'' of
                                       None \<Rightarrow> failed s3
                                     | Some d \<Rightarrow>
                                         Returned (hideLoading ''generate-document''
                                                     (offerAudioVersion d s3))))))))"

text \<open>
  The document page as served, with a document typed in for analysis, the NDA template
  chosen, the jurisdiction given and the four NDA fields filled in; no translations are
  loaded.
\<close>

definition nda_form :: doc_page where
  "nda_form =
     \<lparr>this_translations = JUndefined, currentLanguage = ''en'', currentJurisdiction = ''us'',
      field_values =
        [''document-text'' \<mapsto> ''This agreement is made between the parties.'',
         ''document-type'' \<mapsto> ''contract'', ''document-jurisdiction'' \<mapsto> [],
         ''document-language'' \<mapsto> [],
         ''template-select'' \<mapsto> ''nda'', ''jurisdiction'' \<mapsto> ''us'',
         ''party1'' \<mapsto> ''Acme Ltd'', ''party2'' \<mapsto> ''Bolt Inc'',
         ''confidentiality_period'' \<mapsto> ''12'', ''purpose'' \<mapsto> ''Evaluation''],
      buttons =
        [''analyze-document'' \<mapsto> \<lparr>loading = False, disabled = False\<rparr>,
         ''generate-document'' \<mapsto> \<lparr>loading = False, disabled = False\<rparr>],
      main_card_el = True, alerts = [],
      analysis_result_el = Blank, generated_document_el = Blank, requests = []\<rparr>"

section \<open>The news stream: \<^verbatim>\<open>setupNewsWebSocket\<close>\<close>

text \<open>
  The sockets are numbered in the order of the \<^verbatim>\<open>new WebSocket\<close> calls.
  \<^verbatim>\<open>opens\<close> holds the instant of each call, \<^verbatim>\<open>live\<close> the sockets that carry
  the \<^verbatim>\<open>onclose\<close> handler and have not closed, \<^verbatim>\<open>timers\<close> the instants at
  which the pending \<^verbatim>\<open>setTimeout\<close> callbacks fall due, \<^verbatim>\<open>closures\<close> the
  instants at which \<^verbatim>\<open>onclose\<close> ran.
\<close>

record news_client =
  opens :: "int list"
  live :: "nat list"
  timers :: "int list"
  closures :: "int list"

text \<open>
  \<^verbatim>\<open>setupNewsWebSocket\<close> at instant \<^verbatim>\<open>t\<close>; \<^verbatim>\<open>ok\<close> tells whether
  \<^verbatim>\<open>new WebSocket\<close> returns. When it throws, the \<^verbatim>\<open>catch\<close> logs and no handler
  is installed.
\<close>

definition setupNewsWebSocket :: "int \<Rightarrow> bool \<Rightarrow> news_client \<Rightarrow> news_client" where
  "setupNewsWebSocket t ok s =
     (let k = length (opens s); s1 = s\<lparr>opens := opens s @ [t]\<rparr>
      in if ok then s1\<lparr>live := live s1 @ [k]\<rparr> else s1)"

text \<open>The \<^verbatim>\<open>onclose\<close> handler of socket \<^verbatim>\<open>k\<close>, run at instant \<^verbatim>\<open>t\<close>.\<close>

definition onclose :: "nat \<Rightarrow> int \<Rightarrow> news_client \<Rightarrow> news_client" where
  "onclose k t s =
     s\<lparr>live := removeAll k (live s), closures := closures s @ [t],
       timers := timers s @ [t + 5000]\<rparr>"

text \<open>
  The events: a live socket closes, or the oldest pending timer fires, which the browser
  does no earlier than the instant it falls due. \<^verbatim>\<open>None\<close>: the event cannot happen in
  this state.
\<close>

datatype news_event = SocketClosed nat int | TimerFired int bool

fun news_step :: "news_event \<Rightarrow> news_client \<Rightarrow> news_client option" where
  "news_step (SocketClosed k t) s = (if k \<in> set (live s) then Some (onclose k t s) else None)"
| "news_step (TimerFired t ok) s =
     (case timers s of
        [] \<Rightarrow> None
      | due # rest \<Rightarrow>
          if due \<le> t then Some (setupNewsWebSocket t ok (s\<lparr>timers := rest\<rparr>)) else None)"

fun news_run :: "news_event list \<Rightarrow> news_client \<Rightarrow> news_client option" where
  "news_run [] s = Some s"
| "news_run (ev # evs) s =
     (case news_step ev s of None \<Rightarrow> None | Some s' \<Rightarrow> news_run evs s')"

text \<open>The client after the call of \<^verbatim>\<open>setupNewsWebSocket\<close> in \<^verbatim>\<open>setupNewsFeatures\<close>.\<close>

definition news_start :: "int \<Rightarrow> bool \<Rightarrow> news_client" where
  "news_start t ok = setupNewsWebSocket t ok \<lparr>opens = [], live = [], timers = [], closures = []\<rparr>"

text \<open>
  What holds of the news client at every moment: at most one socket is live or one timer
  pending, never both; every closure has led to one more open or one pending timer; a
  pending timer falls due 5000 ms after the last closure; and every open but the first
  came 5000 ms or more after the closure before it.
\<close>

definition news_inv :: "news_client \<Rightarrow> bool" where
  "news_inv s =
     (length (live s) + length (timers s) \<le> 1 \<and>
      length (opens s) + length (timers s) = Suc (length (closures s)) \<and>
      (timers s = [] \<or> (closures s \<noteq> [] \<and> timers s = [last (closures s) + 5000])) \<and>
      (\<forall>i. Suc i < length (opens s) \<longrightarrow> closures s ! i + 5000 \<le> opens s ! Suc i))"


section \<open>Frame lemmas\<close>

lemma addMessage_keeps_session:
  "sessionId (state_of (addMessage role content ts s)) = sessionId s"
  "ls_chat_session_id (state_of (addMessage role content ts s)) = ls_chat_session_id s"
  by (simp_all add: addMessage_def saveChatHistory_def Let_def split: option.splits jsval.splits)

lemma forEach_keeps_session:
  "sessionId (state_of (forEach_addMessage clock k xs s)) = sessionId s \<and>
   ls_chat_session_id (state_of (forEach_addMessage clock k xs s)) = ls_chat_session_id s"
proof (induction xs arbitrary: k s)
  case Nil
  show ?case by simp
next
  case (Cons msg rest)
  show ?case
  proof (cases "get_prop msg ''role''")
    case None
    then show ?thesis by simp
  next
    case (Some role)
    note r = this
    show ?thesis
    proof (cases "get_prop msg ''content''")
      case None
      with r show ?thesis by simp
    next
      case (Some content)
      show ?thesis
      proof (cases "addMessage role content (clock k) s")
        case (Returned s')
        with addMessage_keeps_session [of role content "clock k" s]
        have "sessionId s' = sessionId s" "ls_chat_session_id s' = ls_chat_session_id s"
          by simp_all
        with Cons.IH [of "Suc k" s'] r Some Returned show ?thesis by simp
      next
        case (Threw s')
        with addMessage_keeps_session [of role content "clock k" s] r Some
        show ?thesis by simp
      qed
    qed
  qed
qed

lemma loadChatHistory_keeps_session:
  "sessionId (loadChatHistory clock s) = sessionId s"
  "ls_chat_session_id (loadChatHistory clock s) = ls_chat_session_id s"
  by (simp_all add: loadChatHistory_def Let_def forEach_keeps_session
      split: option.splits jsval.splits)

lemma updateApiStatusIndicator_keeps:
  "sessionId (state_of (updateApiStatusIndicator s)) = sessionId s"
  "ls_chat_session_id (state_of (updateApiStatusIndicator s)) = ls_chat_session_id s"
  "lastApiCheck (state_of (updateApiStatusIndicator s)) = lastApiCheck s"
  "apiCheckInterval (state_of (updateApiStatusIndicator s)) = apiCheckInterval s"
  "health_requests (state_of (updateApiStatusIndicator s)) = health_requests s"
  "cache (state_of (updateApiStatusIndicator s)) = cache s"
  "inflight (state_of (updateApiStatusIndicator s)) = inflight s"
  "apiAvailable (state_of (updateApiStatusIndicator s)) = apiAvailable s"
  by (simp_all add: updateApiStatusIndicator_def split: option.splits prod.splits)

lemma check_failed_keeps:
  "sessionId (call_state (check_failed s)) = sessionId s"
  "ls_chat_session_id (call_state (check_failed s)) = ls_chat_session_id s"
  "lastApiCheck (call_state (check_failed s)) = lastApiCheck s"
  "apiCheckInterval (call_state (check_failed s)) = apiCheckInterval s"
  "health_requests (call_state (check_failed s)) = health_requests s"
  "cache (call_state (check_failed s)) = cache s"
  "inflight (call_state (check_failed s)) = inflight s"
  using updateApiStatusIndicator_keeps [of "s\<lparr>apiAvailable := JBool False\<rparr>"]
  by (cases "updateApiStatusIndicator (s\<lparr>apiAvailable := JBool False\<rparr>)";
      simp add: check_failed_def)+

lemma check_response_keeps:
  "sessionId (call_state (check_response d s)) = sessionId s"
  "ls_chat_session_id (call_state (check_response d s)) = ls_chat_session_id s"
  "lastApiCheck (call_state (check_response d s)) = lastApiCheck s"
  "apiCheckInterval (call_state (check_response d s)) = apiCheckInterval s"
  "health_requests (call_state (check_response d s)) = health_requests s"
  "cache (call_state (check_response d s)) = cache s"
  "inflight (call_state (check_response d s)) = inflight s"
proof -
  have "sessionId (call_state (check_response d s)) = sessionId s \<and>
        ls_chat_session_id (call_state (check_response d s)) = ls_chat_session_id s \<and>
        lastApiCheck (call_state (check_response d s)) = lastApiCheck s \<and>
        apiCheckInterval (call_state (check_response d s)) = apiCheckInterval s \<and>
        health_requests (call_state (check_response d s)) = health_requests s \<and>
        cache (call_state (check_response d s)) = cache s \<and>
        inflight (call_state (check_response d s)) = inflight s"
  proof (cases "get_prop d ''ok''")
    case None
    then show ?thesis by (simp add: check_response_def check_failed_keeps)
  next
    case (Some ok)
    show ?thesis
    proof (cases "updateApiStatusIndicator (s\<lparr>apiAvailable := ok\<rparr>)")
      case (Returned s')
      with updateApiStatusIndicator_keeps [of "s\<lparr>apiAvailable := ok\<rparr>"] Some
      show ?thesis by (simp add: check_response_def)
    next
      case (Threw s')
      with updateApiStatusIndicator_keeps [of "s\<lparr>apiAvailable := ok\<rparr>"] Some
      show ?thesis by (simp add: check_response_def check_failed_keeps)
    qed
  qed
  then show
    "sessionId (call_state (check_response d s)) = sessionId s"
    "ls_chat_session_id (call_state (check_response d s)) = ls_chat_session_id s"
    "lastApiCheck (call_state (check_response d s)) = lastApiCheck s"
    "apiCheckInterval (call_state (check_response d s)) = apiCheckInterval s"
    "health_requests (call_state (check_response d s)) = health_requests s"
    "cache (call_state (check_response d s)) = cache s"
    "inflight (call_state (check_response d s)) = inflight s"
    by simp_all
qed

lemma begin_keeps_session:
  "sessionId (call_state (checkApiAvailability_begin now s)) = sessionId s"
  "ls_chat_session_id (call_state (checkApiAvailability_begin now s)) = ls_chat_session_id s"
  by (simp_all add: checkApiAvailability_begin_def fetchWithCache_begin_def Let_def
      check_failed_keeps check_response_keeps split: option.splits)

lemma constructor_fields_session:
  "sessionId (constructor_fields rnd s) =
     (case ls_chat_session_id s of
        Some sid \<Rightarrow> if sid \<noteq> [] then sid else ''session_'' @ take 9 (drop 2 rnd)
      | None \<Rightarrow> ''session_'' @ take 9 (drop 2 rnd))"
  "ls_chat_session_id (constructor_fields rnd s) = Some (sessionId (constructor_fields rnd s))"
  by (simp_all add: constructor_fields_def generateSessionId_def Let_def split: option.splits)

lemma new_ChatInterface_session:
  "sessionId (new_ChatInterface rnd clock now s) = sessionId (constructor_fields rnd s)"
  "ls_chat_session_id (new_ChatInterface rnd clock now s) =
     Some (sessionId (constructor_fields rnd s))"
  by (simp_all add: new_ChatInterface_def Let_def begin_keeps_session
      loadChatHistory_keeps_session constructor_fields_session(2))

section \<open>The session id\<close>

text \<open>
  Claim C8. A session id found in local storage at construction is the one the new
  \<^verbatim>\<open>ChatInterface\<close> uses, and storage keeps it; when storage has none (the key is
  absent, or holds the empty string, which \<^verbatim>\<open>||\<close> treats like an absent one),
  \<^verbatim>\<open>generateSessionId\<close> makes the id \<^verbatim>\<open>session_\<close> plus up to nine characters of
  the random string, and stores it. So a later page load that finds the storage entry as
  an earlier construction left it gets the same session id.
\<close>

theorem session_id_reused:
  "(ls_chat_session_id s = Some sid \<and> sid \<noteq> [] \<longrightarrow>
      sessionId (new_ChatInterface rnd clock now s) = sid \<and>
      ls_chat_session_id (new_ChatInterface rnd clock now s) = Some sid) \<and>
   (ls_chat_session_id s = None \<or> ls_chat_session_id s = Some [] \<longrightarrow>
      sessionId (new_ChatInterface rnd clock now s) = ''session_'' @ take 9 (drop 2 rnd) \<and>
      ls_chat_session_id (new_ChatInterface rnd clock now s) =
        Some (''session_'' @ take 9 (drop 2 rnd))) \<and>
   (ls_chat_session_id s' = ls_chat_session_id (new_ChatInterface rnd clock now s) \<longrightarrow>
      sessionId (new_ChatInterface rnd' clock' now' s') =
        sessionId (new_ChatInterface rnd clock now s))"
proof (intro conjI impI)
  assume "ls_chat_session_id s = Some sid \<and> sid \<noteq> []"
  then show "sessionId (new_ChatInterface rnd clock now s) = sid"
    by (simp add: new_ChatInterface_session constructor_fields_session(1))
  from \<open>ls_chat_session_id s = Some sid \<and> sid \<noteq> []\<close>
  show "ls_chat_session_id (new_ChatInterface rnd clock now s) = Some sid"
    by (simp add: new_ChatInterface_session constructor_fields_session(1))
next
  assume "ls_chat_session_id s = None \<or> ls_chat_session_id s = Some []"
  then show "sessionId (new_ChatInterface rnd clock now s) = ''session_'' @ take 9 (drop 2 rnd)"
    by (auto simp: new_ChatInterface_session constructor_fields_session(1))
  from \<open>ls_chat_session_id s = None \<or> ls_chat_session_id s = Some []\<close>
  show "ls_chat_session_id (new_ChatInterface rnd clock now s) =
          Some (''session_'' @ take 9 (drop 2 rnd))"
    by (auto simp: new_ChatInterface_session constructor_fields_session(1))
next
  assume a: "ls_chat_session_id s' = ls_chat_session_id (new_ChatInterface rnd clock now s)"
  have ne: "sessionId (constructor_fields rnd s) \<noteq> []"
    by (simp add: constructor_fields_session(1) split: option.splits)
  from a have "ls_chat_session_id s' = Some (sessionId (constructor_fields rnd s))"
    by (simp add: new_ChatInterface_session)
  with ne show "sessionId (new_ChatInterface rnd' clock' now' s') =
                  sessionId (new_ChatInterface rnd clock now s)"
    by (simp add: new_ChatInterface_session constructor_fields_session(1))
qed

theorem session_id_reused_witness:
  "sessionId (new_ChatInterface ''0.4fzyo82mvyr'' (\<lambda>k. ''2026-01-01T00:00:00.000Z'') 1000
      (first_visit\<lparr>ls_chat_session_id := Some ''session_k2j5x0q1a''\<rparr>)) = ''session_k2j5x0q1a'' \<and>
   sessionId (new_ChatInterface ''0.4fzyo82mvyr'' (\<lambda>k. ''2026-01-01T00:00:00.000Z'') 1000
      first_visit) = ''session_4fzyo82mv'' \<and>
   sessionId (new_ChatInterface ''0.zzz'' (\<lambda>k. ''2026-01-02T00:00:00.000Z'') 90000
      (new_ChatInterface ''0.4fzyo82mvyr'' (\<lambda>k. ''2026-01-01T00:00:00.000Z'') 1000 first_visit))
     = ''session_4fzyo82mv''"
proof -
  let ?c = "\<lambda>k::nat. ''2026-01-01T00:00:00.000Z''"
  let ?c' = "\<lambda>k::nat. ''2026-01-02T00:00:00.000Z''"
  have a: "ls_chat_session_id (first_visit\<lparr>ls_chat_session_id := Some ''session_k2j5x0q1a''\<rparr>)
             = Some ''session_k2j5x0q1a'' \<and> ''session_k2j5x0q1a'' \<noteq> []"
    by simp
  have b: "ls_chat_session_id first_visit = None \<or> ls_chat_session_id first_visit = Some []"
    by (simp add: first_visit_def)
  note t1 = session_id_reused [of "first_visit\<lparr>ls_chat_session_id := Some ''session_k2j5x0q1a''\<rparr>"
      "''session_k2j5x0q1a''" "''0.4fzyo82mvyr''" ?c 1000]
  note t2 = session_id_reused [of first_visit _ "''0.4fzyo82mvyr''" ?c 1000
      "new_ChatInterface ''0.4fzyo82mvyr'' ?c 1000 first_visit" "''0.zzz''" ?c' 90000]
  from t1 a have 1: "sessionId (new_ChatInterface ''0.4fzyo82mvyr'' ?c 1000
      (first_visit\<lparr>ls_chat_session_id := Some ''session_k2j5x0q1a''\<rparr>)) = ''session_k2j5x0q1a''"
    by blast
  from t2 b have 2: "sessionId (new_ChatInterface ''0.4fzyo82mvyr'' ?c 1000 first_visit)
      = ''session_'' @ take 9 (drop 2 ''0.4fzyo82mvyr'')"
    by blast
  from t2 have 3: "sessionId (new_ChatInterface ''0.zzz'' ?c' 90000
        (new_ChatInterface ''0.4fzyo82mvyr'' ?c 1000 first_visit))
      = sessionId (new_ChatInterface ''0.4fzyo82mvyr'' ?c 1000 first_visit)"
    by blast
  from 1 2 3 show ?thesis by simp
qed

section \<open>The transcript\<close>

text \<open>
  Claim C10. When the page has no \<^verbatim>\<open>.chat-messages\<close> element,
  \<^verbatim>\<open>addMessage\<close> returns and the whole state is as before: nothing is appended to
  \<^verbatim>\<open>this.messages\<close> and nothing is written to local storage.
\<close>

theorem addMessage_without_container:
  "chat_messages_el s = None \<Longrightarrow> addMessage role content ts s = Returned s"
  by (simp add: addMessage_def)

theorem addMessage_without_container_witness:
  "chat_messages_el (first_visit\<lparr>chat_messages_el := None\<rparr>) = None \<and>
   addMessage (JStr ''user'') (JStr ''hello'') ''2026-01-01T00:00:00.000Z''
     (first_visit\<lparr>chat_messages_el := None\<rparr>)
   = Returned (first_visit\<lparr>chat_messages_el := None\<rparr>)"
  using addMessage_without_container [of "first_visit\<lparr>chat_messages_el := None\<rparr>"
      "JStr ''user''" "JStr ''hello''" "''2026-01-01T00:00:00.000Z''"]
  by simp

lemma addMessage_pushes:
  assumes "chat_messages_el s = Some children" and "messages s = JArr ms"
  shows "\<exists>s'. addMessage role content ts s = Returned s' \<and>
          messages s' = JArr (ms @ [new_message role content ts]) \<and>
          chat_messages_el s' = Some (children @ [(role, content)]) \<and>
          ls_chat_history s' = Some (JSON_stringify (JArr (ms @ [new_message role content ts])))"
  using assms by (simp add: addMessage_def saveChatHistory_def)

lemma forEach_replays:
  assumes "chat_messages_el s = Some children" and "messages s = JArr ms"
    and "\<forall>m\<in>set xs. \<exists>kvs. m = JObj kvs"
  shows "\<exists>ys. messages (state_of (forEach_addMessage clock k xs s)) = JArr (ms @ ys) \<and>
           length ys = length xs"
  using assms
proof (induction xs arbitrary: k s ms children)
  case Nil
  then show ?case by simp
next
  case (Cons m xs)
  from Cons.prems(3) obtain kvs where m: "m = JObj kvs" by auto
  then obtain role content where rc: "get_prop m ''role'' = Some role"
    "get_prop m ''content'' = Some content"
    by simp
  from addMessage_pushes [OF Cons.prems(1,2), of role content "clock k"]
  obtain s' where s': "addMessage role content (clock k) s = Returned s'"
    "messages s' = JArr (ms @ [new_message role content (clock k)])"
    "chat_messages_el s' = Some (children @ [(role, content)])"
    by blast
  from Cons.prems(3) have "\<forall>m\<in>set xs. \<exists>kvs. m = JObj kvs" by simp
  from Cons.IH [OF s'(3) s'(2) this, of "Suc k"]
  obtain ys where ys: "messages (state_of (forEach_addMessage clock (Suc k) xs s'))
      = JArr ((ms @ [new_message role content (clock k)]) @ ys)" "length ys = length xs"
    by blast
  have "forEach_addMessage clock k (m # xs) s = forEach_addMessage clock (Suc k) xs s'"
    using rc s'(1) by simp
  with ys have "messages (state_of (forEach_addMessage clock k (m # xs) s))
      = JArr (ms @ (new_message role content (clock k) # ys))"
    by simp
  with ys(2) show ?case by (intro exI [of _ "new_message role content (clock k) # ys"]) simp
qed

text \<open>
  Loading a stored transcript of \<^verbatim>\<open>n\<close> messages on a page that has the
  \<^verbatim>\<open>.chat-messages\<close> element leaves \<^verbatim>\<open>2 * n\<close> messages in memory: the stored
  ones followed by as many new ones.
\<close>

lemma loadChatHistory_replays:
  assumes "ls_chat_history s = Some (JsonText (JArr xs))"
    and "chat_messages_el s = Some children"
    and "\<forall>m\<in>set xs. \<exists>kvs. m = JObj kvs"
  shows "\<exists>ys. messages (loadChatHistory clock s) = JArr (xs @ ys) \<and> length ys = length xs"
proof -
  let ?s1 = "s\<lparr>messages := JArr xs\<rparr>"
  have "loadChatHistory clock s = state_of (forEach_addMessage clock 0 xs ?s1)"
    using assms(1) by (simp add: loadChatHistory_def)
  moreover have "chat_messages_el ?s1 = Some children" "messages ?s1 = JArr xs"
    using assms(2) by simp_all
  ultimately show ?thesis
    using forEach_replays [of ?s1 children xs xs clock 0] assms(3) by simp
qed

text \<open>
  Claim C1. The claim asks that a reload reproduces the appended messages, with the stored
  time stamps. On a first visit one message is appended (and saved by
  \<^verbatim>\<open>addMessage\<close>); after a reload the transcript has that message and a second copy
  with the time of the reload, because \<^verbatim>\<open>loadChatHistory\<close> replays every stored
  message through \<^verbatim>\<open>addMessage\<close>, which pushes and saves again.
\<close>

theorem reload_duplicates_transcript:
  "messages
     (reload ''0.9x1c3v5b7n2'' (\<lambda>k. ''2026-01-01T00:05:00.000Z'') 300000
        (state_of (addMessage (JStr ''user'') (JStr ''hi'') ''2026-01-01T00:00:02.000Z''
           (new_ChatInterface ''0.4fzyo82mvyr'' (\<lambda>k. ''2026-01-01T00:00:01.000Z'') 1000
              first_visit))))
   = JArr [new_message (JStr ''user'') (JStr ''hi'') ''2026-01-01T00:00:02.000Z'',
           new_message (JStr ''user'') (JStr ''hi'') ''2026-01-01T00:05:00.000Z'']"
  by (simp add: reload_def new_ChatInterface_def constructor_fields_def generateSessionId_def
      loadChatHistory_def addMessage_def saveChatHistory_def JSON_stringify_def new_message_def
      checkApiAvailability_begin_def fetchWithCache_begin_def check_failed_def
      updateApiStatusIndicator_def first_visit_def Let_def)

text \<open>
  Claim C2. With text under \<^verbatim>\<open>chat_history\<close> that \<^verbatim>\<open>JSON.parse\<close> rejects,
  \<^verbatim>\<open>loadChatHistory\<close> returns and changes nothing: \<^verbatim>\<open>this.messages\<close> is as
  it was, and the rejected text is still in local storage, where the claim has it removed.
\<close>

theorem corrupt_history_not_removed:
  "loadChatHistory clock (s\<lparr>ls_chat_history := Some Unparsable\<rparr>)
     = s\<lparr>ls_chat_history := Some Unparsable\<rparr>"
  by (simp add: loadChatHistory_def)

section \<open>The reachability flag\<close>

text \<open>
  Claim C6. A health request that is answered with the body \<^verbatim>\<open>{"status": "healthy"}\<close>
  leaves \<^verbatim>\<open>apiAvailable\<close> undefined: \<^verbatim>\<open>response\<close> in
  \<^verbatim>\<open>checkApiAvailability\<close> is the parsed body, not the \<^verbatim>\<open>Response\<close>, and has no
  \<^verbatim>\<open>ok\<close>. The claim has the flag a boolean, true after a successful answer.
\<close>

theorem health_body_without_ok:
  "apiAvailable
     (call_state (checkApiAvailability 40000 (Body (JObj [(''status'', JStr ''healthy'')]))
        (new_ChatInterface ''0.4fzyo82mvyr'' (\<lambda>k. ''2026-01-01T00:00:01.000Z'') 1000
           first_visit)))
   = JUndefined"
  by (simp add: new_ChatInterface_def constructor_fields_def generateSessionId_def
      loadChatHistory_def checkApiAvailability_def checkApiAvailability_settle_def
      checkApiAvailability_begin_def fetchWithCache_begin_def check_failed_def check_response_def
      updateApiStatusIndicator_def first_visit_def Let_def)

section \<open>Throttling of the health check\<close>

lemma begin_throttled:
  "lastApiCheck s \<noteq> 0 \<Longrightarrow> t - lastApiCheck s < apiCheckInterval s \<Longrightarrow>
   checkApiAvailability_begin t s = Finished s JUndefined"
  by (simp add: checkApiAvailability_begin_def)

lemma begin_passed:
  assumes "\<not> (t - lastApiCheck s < apiCheckInterval s \<and> lastApiCheck s \<noteq> 0)"
  shows "lastApiCheck (call_state (checkApiAvailability_begin t s)) = t"
    and "apiCheckInterval (call_state (checkApiAvailability_begin t s)) = apiCheckInterval s"
  using assms
  by (auto simp: checkApiAvailability_begin_def fetchWithCache_begin_def Let_def
      check_failed_keeps check_response_keeps split: option.splits)

lemma settle_keeps:
  "lastApiCheck (call_state (checkApiAvailability_settle r s)) = lastApiCheck s"
  "apiCheckInterval (call_state (checkApiAvailability_settle r s)) = apiCheckInterval s"
  "health_requests (call_state (checkApiAvailability_settle r s)) = health_requests s"
  by (simp_all add: checkApiAvailability_settle_def Let_def check_failed_keeps
      check_response_keeps split: fetch_result.splits option.splits)

lemma run_while_throttled:
  "lastApiCheck s = t1 \<Longrightarrow> t1 \<noteq> 0 \<Longrightarrow>
   \<forall>t\<in>set (invoke_times evs). t - t1 < apiCheckInterval s \<Longrightarrow>
   lastApiCheck (check_run evs s) = t1 \<and>
   apiCheckInterval (check_run evs s) = apiCheckInterval s \<and>
   health_requests (check_run evs s) = health_requests s"
proof (induction evs arbitrary: s)
  case Nil
  then show ?case by (simp add: check_run_def)
next
  case (Cons ev evs)
  have run: "check_run (ev # evs) s = check_run evs (check_step s ev)"
    by (simp add: check_run_def)
  show ?case
  proof (cases ev)
    case (Invoke t)
    with Cons.prems have "t - lastApiCheck s < apiCheckInterval s" "lastApiCheck s \<noteq> 0"
      by simp_all
    then have same: "check_step s ev = s"
      using Invoke by (simp add: begin_throttled)
    from Cons.prems Invoke have "\<forall>t\<in>set (invoke_times evs). t - t1 < apiCheckInterval s"
      by simp
    with Cons.IH [of s] Cons.prems(1,2) run same show ?thesis by simp
  next
    case (Settle r)
    let ?s = "check_step s ev"
    have keep: "lastApiCheck ?s = lastApiCheck s" "apiCheckInterval ?s = apiCheckInterval s"
      "health_requests ?s = health_requests s"
      using Settle by (simp_all add: settle_keeps)
    from Cons.prems Settle keep
    have "\<forall>t\<in>set (invoke_times evs). t - t1 < apiCheckInterval ?s" by simp
    with Cons.IH [of ?s] Cons.prems(1,2) keep run show ?thesis by simp
  qed
qed

lemma check_run_snoc: "check_run (evs @ [ev]) s = check_step (check_run evs s) ev"
  by (simp add: check_run_def)

text \<open>
  Claim C5, amended. Take a call of \<^verbatim>\<open>checkApiAvailability\<close> that starts at a non-zero
  clock reading \<^verbatim>\<open>t1\<close> and is not throttled (every call that sends a request is
  such a call), and a later call that starts at \<^verbatim>\<open>t2\<close>, less than the interval
  after \<^verbatim>\<open>t1\<close>. Whatever calls and settled requests lie between them, at clock
  readings up to \<^verbatim>\<open>t2\<close>, no health request is sent after the first call's own, up to
  and including the second call.
\<close>

theorem throttle_after_passed_check:
  assumes "\<not> (t1 - lastApiCheck s < apiCheckInterval s \<and> lastApiCheck s \<noteq> 0)"
    and "t1 \<noteq> 0"
    and "\<forall>t\<in>set (invoke_times evs). t \<le> t2"
    and "t2 - t1 < apiCheckInterval s"
  shows "health_requests (check_run (evs @ [Invoke t2]) (check_step s (Invoke t1)))
           = health_requests (check_step s (Invoke t1))"
proof -
  let ?s1 = "check_step s (Invoke t1)"
  from assms(1) have s1: "lastApiCheck ?s1 = t1" "apiCheckInterval ?s1 = apiCheckInterval s"
    by (simp_all add: begin_passed)
  from assms(3,4) s1 have "\<forall>t\<in>set (invoke_times evs). t - t1 < apiCheckInterval ?s1"
    by auto
  from run_while_throttled [OF s1(1) assms(2) this]
  have mid: "lastApiCheck (check_run evs ?s1) = t1"
    "apiCheckInterval (check_run evs ?s1) = apiCheckInterval ?s1"
    "health_requests (check_run evs ?s1) = health_requests ?s1"
    by simp_all
  with assms(2,4) s1
  have "checkApiAvailability_begin t2 (check_run evs ?s1) = Finished (check_run evs ?s1) JUndefined"
    by (intro begin_throttled) simp_all
  with mid show ?thesis by (simp add: check_run_snoc)
qed

theorem throttle_after_passed_check_witness:
  "\<not> (31000 - lastApiCheck (new_ChatInterface ''0.4fzyo82mvyr''
          (\<lambda>k. ''2026-01-01T00:00:01.000Z'') 1000 first_visit)
        < apiCheckInterval (new_ChatInterface ''0.4fzyo82mvyr''
          (\<lambda>k. ''2026-01-01T00:00:01.000Z'') 1000 first_visit)
      \<and> lastApiCheck (new_ChatInterface ''0.4fzyo82mvyr''
          (\<lambda>k. ''2026-01-01T00:00:01.000Z'') 1000 first_visit) \<noteq> 0) \<and>
   (31000::int) \<noteq> 0 \<and>
   invoke_times [Settle NetworkError, Invoke 45000] = [45000] \<and> (45000::int) \<le> 60000 \<and>
   60000 - 31000 < apiCheckInterval (new_ChatInterface ''0.4fzyo82mvyr''
          (\<lambda>k. ''2026-01-01T00:00:01.000Z'') 1000 first_visit) \<and>
   health_requests (check_run ([Settle NetworkError, Invoke 45000] @ [Invoke 60000])
      (check_step (new_ChatInterface ''0.4fzyo82mvyr''
          (\<lambda>k. ''2026-01-01T00:00:01.000Z'') 1000 first_visit) (Invoke 31000))) = [31000]"
proof -
  let ?s = "new_ChatInterface ''0.4fzyo82mvyr'' (\<lambda>k. ''2026-01-01T00:00:01.000Z'') 1000 first_visit"
  have f: "lastApiCheck ?s = 1000" "apiCheckInterval ?s = 30000" "cache ?s = Some Map.empty"
    "health_requests ?s = []"
    by (simp_all add: new_ChatInterface_def constructor_fields_def generateSessionId_def
        loadChatHistory_def checkApiAvailability_begin_def fetchWithCache_begin_def
        check_failed_def updateApiStatusIndicator_def first_visit_def Let_def)
  have h1: "\<not> (31000 - lastApiCheck ?s < apiCheckInterval ?s \<and> lastApiCheck ?s \<noteq> 0)"
    by (simp add: f)
  have h2: "(31000::int) \<noteq> 0" by simp
  have h3: "\<forall>t\<in>set (invoke_times [Settle NetworkError, Invoke 45000]). t \<le> 60000" by simp
  have h4: "60000 - 31000 < apiCheckInterval ?s" by (simp add: f)
  have first: "health_requests (check_step ?s (Invoke 31000)) = [31000]"
    by (simp add: checkApiAvailability_begin_def fetchWithCache_begin_def f Let_def)
  from throttle_after_passed_check [OF h1 h2 h3 h4] first h1 h2 h3 h4
  show ?thesis by simp
qed

text \<open>
  Claim C5, as stated, fails. After a page load at 1000 the checks start at 31000
  (a request, which fails), 60000 (throttled) and 61000: the last two start 1000 ms apart,
  with an interval of 30000 ms, and the one at 61000 sends a request, since the throttle
  counts from 31000.
\<close>

theorem throttle_counterexample:
  "apiCheckInterval (new_ChatInterface ''0.4fzyo82mvyr'' (\<lambda>k. ''2026-01-01T00:00:01.000Z'') 1000
      first_visit) = 30000 \<and>
   health_requests
     (check_run [Invoke 31000, Settle NetworkError, Invoke 60000]
        (new_ChatInterface ''0.4fzyo82mvyr'' (\<lambda>k. ''2026-01-01T00:00:01.000Z'') 1000
           first_visit)) = [31000] \<and>
   health_requests
     (check_run [Invoke 31000, Settle NetworkError, Invoke 60000, Invoke 61000]
        (new_ChatInterface ''0.4fzyo82mvyr'' (\<lambda>k. ''2026-01-01T00:00:01.000Z'') 1000
           first_visit)) = [31000, 61000]"
  by (simp add: new_ChatInterface_def constructor_fields_def generateSessionId_def
      loadChatHistory_def check_run_def checkApiAvailability_settle_def
      checkApiAvailability_begin_def fetchWithCache_begin_def check_failed_def check_response_def
      updateApiStatusIndicator_def first_visit_def Let_def)

section \<open>The conversation history\<close>

lemma sorted_recent_first:
  "sorted_wrt (\<lambda>a b. lastUpdated b \<le> lastUpdated a) (sort_recent_first h)"
proof -
  have "sorted (map (\<lambda>c. - lastUpdated c) (sort_recent_first h))"
    by (simp add: sort_recent_first_def)
  then show ?thesis by (simp add: sorted_map)
qed

lemma take_drop_recent:
  assumes "sorted_wrt (\<lambda>a b. lastUpdated b \<le> lastUpdated a) xs"
  shows "sorted_wrt (\<lambda>a b. lastUpdated b \<le> lastUpdated a) (take n xs)"
    and "\<forall>d\<in>set (drop n xs). \<forall>k\<in>set (take n xs). lastUpdated d \<le> lastUpdated k"
proof -
  from assms have "sorted_wrt (\<lambda>a b. lastUpdated b \<le> lastUpdated a) (take n xs @ drop n xs)"
    by simp
  then show "sorted_wrt (\<lambda>a b. lastUpdated b \<le> lastUpdated a) (take n xs)"
    and "\<forall>d\<in>set (drop n xs). \<forall>k\<in>set (take n xs). lastUpdated d \<le> lastUpdated k"
    unfolding sorted_wrt_append by blast+
qed

lemma mset_recent: "mset (take n (sort_recent_first h) @ drop n (sort_recent_first h)) = mset h"
  by (simp add: sort_recent_first_def)

lemma read_bubbles_all2:
  "list_all2 (\<lambda>b m. message_content b = Some (sm_content m) \<and>
                     message_timestamp b = Some (sm_timestamp m) \<and>
                     sender m = (if is_user b then ''user'' else ''assistant''))
     children msgs \<Longrightarrow>
   read_bubbles children = Some msgs"
proof (induction children msgs rule: list_all2_induct)
  case Nil
  show ?case by simp
next
  case (Cons b bs m ms)
  from Cons.hyps(1) have "read_bubble b = Some m"
    by (simp add: read_bubble_def)
  with Cons.IH show ?case by simp
qed

lemma read_bubbles_readable:
  "read_bubbles children = Some msgs \<Longrightarrow>
   \<forall>b\<in>set children. message_content b \<noteq> None \<and> message_timestamp b \<noteq> None"
  by (induction children arbitrary: msgs) (auto simp: read_bubble_def split: option.splits)

lemma read_bubbles_unreadable:
  "\<exists>b\<in>set children. message_content b = None \<or> message_timestamp b = None \<Longrightarrow>
   read_bubbles children = None"
  using read_bubbles_readable [of children] by (cases "read_bubbles children") auto

lemma read_bubbles_length: "read_bubbles children = Some msgs \<Longrightarrow> length msgs = length children"
  by (induction children arbitrary: msgs) (auto split: option.splits)

lemma findIndex_none: "\<forall>x\<in>set xs. \<not> P x \<Longrightarrow> findIndex P xs = None"
  by (induction xs) simp_all

lemma findIndex_first:
  "\<forall>x\<in>set pre. \<not> P x \<Longrightarrow> P x \<Longrightarrow> findIndex P (pre @ x # post) = Some (length pre)"
  by (induction pre) simp_all

lemma upsert_pushes:
  "\<forall>c\<in>set (chatHistory s). conv_id c \<noteq> currentChatId s \<Longrightarrow>
   upsert_current entry s = chatHistory s @ [entry]"
  by (simp add: upsert_current_def findIndex_none)

lemma upsert_replaces:
  assumes "chatHistory s = pre @ old # post" and "conv_id old = currentChatId s"
    and "\<forall>c\<in>set pre. conv_id c \<noteq> currentChatId s"
  shows "upsert_current entry s = pre @ entry # post"
  using findIndex_first [of pre "\<lambda>c. conv_id c = currentChatId s" old post] assms
  by (simp add: upsert_current_def)

text \<open>
  Claim C7. A call of \<^verbatim>\<open>updateChatHistory\<close> that finds \<^verbatim>\<open>#chatMessages\<close> with
  more than one message, each with its content and time stamp, changes exactly
  \<^verbatim>\<open>this.chatHistory\<close> and the list in local storage, both to the same list. That
  list has 20 entries, or all of them when there are fewer; it is ordered latest
  \<^verbatim>\<open>lastUpdated\<close> first; and together with the entries left out it is the old history
  with the entry for the current conversation (its messages read from the page, its
  \<^verbatim>\<open>lastUpdated\<close> the time of the call) added, or put in place of the first entry with
  the current id, no entry left out being later than one that is kept. Every other call
  leaves the state, and so the persisted list, as it was.
\<close>

theorem updateChatHistory_keeps_recent_20:
  "(chatMessages_el s = Some children \<and>
    list_all2 (\<lambda>b m. message_content b = Some (sm_content m) \<and>
                      message_timestamp b = Some (sm_timestamp m) \<and>
                      sender m = (if is_user b then ''user'' else ''assistant''))
      children msgs \<and>
    1 < length msgs \<and>
    entry = \<lparr>conv_id = currentChatId s,
             title = (case currentChatTitle_el s of Some t \<Rightarrow> t | None \<Rightarrow> ''New Chat''),
             conv_messages = msgs, lastUpdated = now\<rparr> \<longrightarrow>
      (\<exists>h dropped.
         updateChatHistory now s = s\<lparr>chatHistory := h, ls_chatHistory := Some (JsonText h)\<rparr> \<and>
         length h = min 20 (length (h @ dropped)) \<and>
         sorted_wrt (\<lambda>a b. lastUpdated b \<le> lastUpdated a) h \<and>
         (\<forall>d\<in>set dropped. \<forall>k\<in>set h. lastUpdated d \<le> lastUpdated k) \<and>
         ((\<forall>c\<in>set (chatHistory s). conv_id c \<noteq> currentChatId s) \<longrightarrow>
            mset (h @ dropped) = mset (chatHistory s) + {#entry#}) \<and>
         (\<forall>pre old post.
            chatHistory s = pre @ old # post \<and> conv_id old = currentChatId s \<and>
            (\<forall>c\<in>set pre. conv_id c \<noteq> currentChatId s) \<longrightarrow>
            mset (h @ dropped) = mset pre + {#entry#} + mset post))) \<and>
   ((chatMessages_el s = None \<or>
     (\<exists>children. chatMessages_el s = Some children \<and>
        (length children \<le> 1 \<or>
         (\<exists>b\<in>set children. message_content b = None \<or> message_timestamp b = None)))) \<longrightarrow>
      updateChatHistory now s = s)"
proof (intro conjI impI)
  assume a: "chatMessages_el s = Some children \<and>
    list_all2 (\<lambda>b m. message_content b = Some (sm_content m) \<and>
                      message_timestamp b = Some (sm_timestamp m) \<and>
                      sender m = (if is_user b then ''user'' else ''assistant''))
      children msgs \<and>
    1 < length msgs \<and>
    entry = \<lparr>conv_id = currentChatId s,
             title = (case currentChatTitle_el s of Some t \<Rightarrow> t | None \<Rightarrow> ''New Chat''),
             conv_messages = msgs, lastUpdated = now\<rparr>"
  then have rb: "read_bubbles children = Some msgs"
    using read_bubbles_all2 by blast
  define all_sorted where "all_sorted = sort_recent_first (upsert_current entry s)"
  let ?h = "take 20 all_sorted" and ?d = "drop 20 all_sorted"
  have upd: "updateChatHistory now s = s\<lparr>chatHistory := ?h, ls_chatHistory := Some (JsonText ?h)\<rparr>"
    using a rb by (simp add: updateChatHistory_def Let_def all_sorted_def)
  have srt: "sorted_wrt (\<lambda>a b. lastUpdated b \<le> lastUpdated a) all_sorted"
    by (simp add: all_sorted_def sorted_recent_first)
  have len: "length ?h = min 20 (length (?h @ ?d))"
    by simp
  have ms: "mset (?h @ ?d) = mset (upsert_current entry s)"
    by (simp add: all_sorted_def sort_recent_first_def)
  have push: "mset (?h @ ?d) = mset (chatHistory s) + {#entry#}"
    if "\<forall>c\<in>set (chatHistory s). conv_id c \<noteq> currentChatId s"
    using ms upsert_pushes [OF that, of entry] by simp
  have repl: "mset (?h @ ?d) = mset pre + {#entry#} + mset post"
    if "chatHistory s = pre @ old # post \<and> conv_id old = currentChatId s \<and>
        (\<forall>c\<in>set pre. conv_id c \<noteq> currentChatId s)" for pre old post
  proof -
    from that have "upsert_current entry s = pre @ entry # post"
      using upsert_replaces [of s pre old post entry] by blast
    with ms show ?thesis by simp
  qed
  from upd len take_drop_recent [OF srt, of 20] push repl
  show "\<exists>h dropped.
         updateChatHistory now s = s\<lparr>chatHistory := h, ls_chatHistory := Some (JsonText h)\<rparr> \<and>
         length h = min 20 (length (h @ dropped)) \<and>
         sorted_wrt (\<lambda>a b. lastUpdated b \<le> lastUpdated a) h \<and>
         (\<forall>d\<in>set dropped. \<forall>k\<in>set h. lastUpdated d \<le> lastUpdated k) \<and>
         ((\<forall>c\<in>set (chatHistory s). conv_id c \<noteq> currentChatId s) \<longrightarrow>
            mset (h @ dropped) = mset (chatHistory s) + {#entry#}) \<and>
         (\<forall>pre old post.
            chatHistory s = pre @ old # post \<and> conv_id old = currentChatId s \<and>
            (\<forall>c\<in>set pre. conv_id c \<noteq> currentChatId s) \<longrightarrow>
            mset (h @ dropped) = mset pre + {#entry#} + mset post)"
    by (intro exI [of _ ?h] exI [of _ ?d]) blast
next
  assume b: "chatMessages_el s = None \<or>
     (\<exists>children. chatMessages_el s = Some children \<and>
        (length children \<le> 1 \<or>
         (\<exists>b\<in>set children. message_content b = None \<or> message_timestamp b = None)))"
  show "updateChatHistory now s = s"
  proof (cases "chatMessages_el s")
    case None
    then show ?thesis by (simp add: updateChatHistory_def)
  next
    case (Some children)
    with b have c: "length children \<le> 1 \<or>
         (\<exists>b\<in>set children. message_content b = None \<or> message_timestamp b = None)"
      by simp
    show ?thesis
    proof (cases "read_bubbles children")
      case None
      with Some show ?thesis by (simp add: updateChatHistory_def)
    next
      case (Some msgs)
      with c read_bubbles_unreadable [of children] have "length children \<le> 1" by auto
      with read_bubbles_length [OF Some] have "length msgs \<le> 1" by simp
      with Some \<open>chatMessages_el s = Some children\<close> show ?thesis
        by (simp add: updateChatHistory_def Let_def)
    qed
  qed
qed


lemma length_sample_history: "length (sample_history n) = n"
  by (induction n) simp_all

lemma sample_history_ids:
  "c \<in> set (sample_history n) \<Longrightarrow> \<exists>k. conv_id c = Some (replicate (Suc k) CHR ''c'')"
  by (induction n) auto

theorem updateChatHistory_keeps_recent_20_witness:
  "(\<exists>h. ls_chatHistory (updateChatHistory 25000
        (first_visit\<lparr>currentChatId := Some ''1767225601000'',
           chatHistory := sample_history 20,
           chatMessages_el := Some
             [\<lparr>is_user = False, message_content = Some ''Welcome'',
               message_timestamp = Some ''Just now''\<rparr>,
              \<lparr>is_user = True, message_content = Some ''What is a tort?'',
               message_timestamp = Some ''Just now''\<rparr>]\<rparr>)) = Some (JsonText h) \<and>
       length h = 20 \<and> sorted_wrt (\<lambda>a b. lastUpdated b \<le> lastUpdated a) h \<and>
       map lastUpdated h =
         [25000, 20000, 19000, 18000, 17000, 16000, 15000, 14000, 13000, 12000,
          11000, 10000, 9000, 8000, 7000, 6000, 5000, 4000, 3000, 2000]) \<and>
   updateChatHistory 25000 first_visit = first_visit"
proof -
  let ?kids = "[\<lparr>is_user = False, message_content = Some ''Welcome'',
               message_timestamp = Some ''Just now''\<rparr>,
              \<lparr>is_user = True, message_content = Some ''What is a tort?'',
               message_timestamp = Some ''Just now''\<rparr>]"
  let ?msgs = "[\<lparr>sender = ''assistant'', sm_content = ''Welcome'', sm_timestamp = ''Just now''\<rparr>,
               \<lparr>sender = ''user'', sm_content = ''What is a tort?'', sm_timestamp = ''Just now''\<rparr>]"
  let ?s = "first_visit\<lparr>currentChatId := Some ''1767225601000'',
      chatHistory := sample_history 20, chatMessages_el := Some ?kids\<rparr>"
  let ?entry = "\<lparr>conv_id = currentChatId ?s,
      title = (case currentChatTitle_el ?s of Some t \<Rightarrow> t | None \<Rightarrow> ''New Chat''),
      conv_messages = ?msgs, lastUpdated = 25000\<rparr>"
  let ?R = "\<lambda>b m. message_content b = Some (sm_content m) \<and>
                   message_timestamp b = Some (sm_timestamp m) \<and>
                   sender m = (if is_user b then ''user'' else ''assistant'')"
  have a: "chatMessages_el ?s = Some ?kids \<and> list_all2 ?R ?kids ?msgs \<and> 1 < length ?msgs \<and>
           ?entry = ?entry"
    by simp
  have fresh: "\<forall>c\<in>set (chatHistory ?s). conv_id c \<noteq> currentChatId ?s"
  proof
    fix c assume "c \<in> set (chatHistory ?s)"
    then have "c \<in> set (sample_history 20)" by simp
    from sample_history_ids [OF this] obtain k
      where "conv_id c = Some (replicate (Suc k) CHR ''c'')" by blast
    then show "conv_id c \<noteq> currentChatId ?s" by simp
  qed
  have b: "chatMessages_el first_visit = None \<or>
     (\<exists>children. chatMessages_el first_visit = Some children \<and>
        (length children \<le> 1 \<or>
         (\<exists>b\<in>set children. message_content b = None \<or> message_timestamp b = None)))"
    by (simp add: first_visit_def)
  from updateChatHistory_keeps_recent_20 [of ?s ?kids ?msgs ?entry 25000] a fresh
  obtain h dropped where h:
    "updateChatHistory 25000 ?s = ?s\<lparr>chatHistory := h, ls_chatHistory := Some (JsonText h)\<rparr>"
    "length h = min 20 (length (h @ dropped))"
    "sorted_wrt (\<lambda>a b. lastUpdated b \<le> lastUpdated a) h"
    "mset (h @ dropped) = mset (chatHistory ?s) + {#?entry#}"
    by blast
  from h(4) have "size (mset (h @ dropped)) = size (mset (chatHistory ?s) + {#?entry#})"
    by simp
  then have "length (h @ dropped) = 21"
    by (simp add: length_sample_history)
  with h(2) have len: "length h = 20" by simp
  from h(1) have ls: "ls_chatHistory (updateChatHistory 25000 ?s) = Some (JsonText h)"
    and ch: "chatHistory (updateChatHistory 25000 ?s) = h"
    by simp_all
  have "map lastUpdated (chatHistory (updateChatHistory 25000 ?s)) =
         [25000, 20000, 19000, 18000, 17000, 16000, 15000, 14000, 13000, 12000,
          11000, 10000, 9000, 8000, 7000, 6000, 5000, 4000, 3000, 2000]"
    by (simp add: updateChatHistory_def read_bubble_def upsert_current_def
        sort_recent_first_def first_visit_def Let_def eval_nat_numeral)
  with ch have vals: "map lastUpdated h =
         [25000, 20000, 19000, 18000, 17000, 16000, 15000, 14000, 13000, 12000,
          11000, 10000, 9000, 8000, 7000, 6000, 5000, 4000, 3000, 2000]"
    by simp
  from updateChatHistory_keeps_recent_20 [of first_visit _ _ _ 25000] b
  have 2: "updateChatHistory 25000 first_visit = first_visit"
    by blast
  note conjI [OF ls conjI [OF len conjI [OF h(3) vals]]]
  then have 1: "\<exists>h. ls_chatHistory (updateChatHistory 25000 ?s) = Some (JsonText h) \<and>
       length h = 20 \<and> sorted_wrt (\<lambda>a b. lastUpdated b \<le> lastUpdated a) h \<and>
       map lastUpdated h =
         [25000, 20000, 19000, 18000, 17000, 16000, 15000, 14000, 13000, 12000,
          11000, 10000, 9000, 8000, 7000, 6000, 5000, 4000, 3000, 2000]"
    by (rule exI [of _ h])
  from 1 2 show ?thesis by (rule conjI)
qed

section \<open>The document handlers\<close>

lemma showLoading_keeps:
  "requests (showLoading i s) = requests s"
  "field_values (showLoading i s) = field_values s"
  "alerts (showLoading i s) = alerts s"
  "currentLanguage (showLoading i s) = currentLanguage s"
  "currentJurisdiction (showLoading i s) = currentJurisdiction s"
  by (simp_all add: showLoading_def split: option.splits)


lemma hide_after_show:
  "buttons x = buttons (showLoading i s) \<Longrightarrow>
   buttons (hideLoading i x) i
     = map_option (\<lambda>b. b\<lparr>loading := False, disabled := False\<rparr>) (buttons s i)"
  by (simp add: hideLoading_def showLoading_def split: option.splits)

lemma catch_finally_keeps:
  "requests (state_of (catch_finally i m s)) = requests s"
  "buttons (state_of (catch_finally i m s)) = buttons (hideLoading i s)"
  by (simp_all add: catch_finally_def showError_def hideLoading_def split: option.splits)

lemma catch_finally_form:
  "\<exists>x. state_of (catch_finally i m s) = hideLoading i x \<and> buttons x = buttons s \<and>
       requests x = requests s"
  by (cases "main_card_el s") (auto simp: catch_finally_def showError_def)

lemma displayGeneratedDocument_keeps:
  "requests (state_of (displayGeneratedDocument result s)) = requests s"
  "buttons (state_of (displayGeneratedDocument result s)) = buttons s"
  by (simp_all add: displayGeneratedDocument_def split: option.splits)

lemma displayAnalysis_keeps:
  "requests (state_of (displayAnalysis result s)) = requests s"
  "buttons (state_of (displayAnalysis result s)) = buttons s"
  by (simp_all add: displayAnalysis_def split: option.splits)

text \<open>Every way the rest of a handler can go, once its request is sent.\<close>

lemma generation_outcome:
  assumes "field_values s ''template-select'' = Some templateKey"
    and "field_values s ''jurisdiction'' = Some jurisdiction"
    and "field_values s ''document-language'' = Some language"
    and "templateKey \<noteq> []" and "jurisdiction \<noteq> []"
    and "getTemplateParameters templateKey = Some params"
    and "collect_parameters s params = Some parameters"
  shows "\<exists>x extra. state_of (handleDocumentGeneration r s) = hideLoading ''generate-document'' x \<and>
           buttons x = buttons (showLoading ''generate-document'' s) \<and>
           requests x = requests s @
             GenerateRequest templateKey jurisdiction
               (if language \<noteq> [] then language else currentLanguage s) parameters # extra \<and>
           (extra = [] \<or> (\<exists>d. extra = [AudioRequest d]))"
proof -
  let ?s1 = "showLoading ''generate-document'' s"
  let ?s2 = "?s1\<lparr>requests := requests ?s1 @
      [GenerateRequest templateKey jurisdiction
         (if language \<noteq> [] then language else currentLanguage ?s1) parameters]\<rparr>"
  let ?failed = "catch_finally ''generate-document''
      (translated ?s2 ''errorGeneratingDocument'' (ErrorNotice ''Error generating document: ''))"
  have H: "handleDocumentGeneration r s =
     (case r of NetworkError \<Rightarrow> ?failed ?s2 | InvalidBody \<Rightarrow> ?failed ?s2
      | Body result \<Rightarrow>
          (case displayGeneratedDocument result ?s2 of
             Threw s3 \<Rightarrow> ?failed s3
           | Returned s3 \<Rightarrow>
               (case get_prop result ''document'' of
                  None \<Rightarrow> ?failed s3
                | Some d \<Rightarrow> Returned (hideLoading ''generate-document'' (offerAudioVersion d s3)))))"
    using assms by (simp add: handleDocumentGeneration_def Let_def)
  have s2: "buttons ?s2 = buttons ?s1"
    "requests ?s2 = requests s @
       [GenerateRequest templateKey jurisdiction
          (if language \<noteq> [] then language else currentLanguage s) parameters]"
    by (simp_all add: showLoading_keeps)
  have fail: "\<exists>x. state_of (?failed y) = hideLoading ''generate-document'' x \<and>
      buttons x = buttons ?s1 \<and>
      requests x = requests s @
        GenerateRequest templateKey jurisdiction
          (if language \<noteq> [] then language else currentLanguage s) parameters # []"
    if "buttons y = buttons ?s2" "requests y = requests ?s2" for y
    using catch_finally_form [of "''generate-document''" _ y] that s2 by auto
  show ?thesis
  proof (cases r)
    case NetworkError
    with H fail [of ?s2] show ?thesis by auto
  next
    case InvalidBody
    with H fail [of ?s2] show ?thesis by auto
  next
    case (Body result)
    show ?thesis
    proof (cases "displayGeneratedDocument result ?s2")
      case (Threw s3)
      with displayGeneratedDocument_keeps [of result ?s2]
      have "buttons s3 = buttons ?s2" "requests s3 = requests ?s2" by simp_all
      from fail [OF this] H Body Threw show ?thesis by auto
    next
      case (Returned s3)
      with displayGeneratedDocument_keeps [of result ?s2]
      have k: "buttons s3 = buttons ?s2" "requests s3 = requests ?s2" by simp_all
      show ?thesis
      proof (cases "get_prop result ''document''")
        case None
        with fail [OF k] H Body Returned show ?thesis by auto
      next
        case (Some d)
        with H Body Returned
        have "state_of (handleDocumentGeneration r s)
                = hideLoading ''generate-document'' (offerAudioVersion d s3)"
          by simp
        moreover have "buttons (offerAudioVersion d s3) = buttons ?s1"
          using k s2 by (simp add: offerAudioVersion_def)
        moreover have "requests (offerAudioVersion d s3) = requests s @
             GenerateRequest templateKey jurisdiction
               (if language \<noteq> [] then language else currentLanguage s) parameters #
             [AudioRequest d]"
          using k s2 by (simp add: offerAudioVersion_def)
        ultimately show ?thesis by blast
      qed
    qed
  qed
qed

lemma analysis_outcome:
  assumes "field_values s ''document-text'' = Some documentText"
    and "field_values s ''document-type'' = Some documentType"
    and "field_values s ''document-jurisdiction'' = Some jurisdiction"
    and "field_values s ''document-language'' = Some language"
    and "\<not> blank documentText"
  shows "\<exists>x. state_of (handleDocumentAnalysis r s) = hideLoading ''analyze-document'' x \<and>
           buttons x = buttons (showLoading ''analyze-document'' s)"
proof -
  let ?s1 = "showLoading ''analyze-document'' s"
  let ?s2 = "?s1\<lparr>requests := requests ?s1 @
      [AnalyzeRequest documentText documentType
         (if jurisdiction \<noteq> [] then jurisdiction else currentJurisdiction ?s1)
         (if language \<noteq> [] then language else currentLanguage ?s1)]\<rparr>"
  let ?failed = "catch_finally ''analyze-document''
      (translated ?s2 ''errorAnalyzingDocument'' (ErrorNotice ''Error analyzing document: ''))"
  have H: "handleDocumentAnalysis r s =
     (case r of NetworkError \<Rightarrow> ?failed ?s2 | InvalidBody \<Rightarrow> ?failed ?s2
      | Body result \<Rightarrow>
          (case displayAnalysis result ?s2 of
             Threw s3 \<Rightarrow> ?failed s3
           | Returned s3 \<Rightarrow>
               (case get_prop result ''summary'' of
                  None \<Rightarrow> ?failed s3
                | Some summary \<Rightarrow>
                    Returned (hideLoading ''analyze-document'' (offerAudioVersion summary s3)))))"
    using assms by (simp add: handleDocumentAnalysis_def Let_def)
  have s2: "buttons ?s2 = buttons ?s1" by simp
  have fail: "\<exists>x. state_of (?failed y) = hideLoading ''analyze-document'' x \<and>
      buttons x = buttons ?s1" if "buttons y = buttons ?s2" for y
    using catch_finally_form [of "''analyze-document''" _ y] that s2 by auto
  show ?thesis
  proof (cases r)
    case NetworkError
    with H fail [of ?s2] show ?thesis by auto
  next
    case InvalidBody
    with H fail [of ?s2] show ?thesis by auto
  next
    case (Body result)
    show ?thesis
    proof (cases "displayAnalysis result ?s2")
      case (Threw s3)
      with displayAnalysis_keeps [of result ?s2] have "buttons s3 = buttons ?s2" by simp
      from fail [OF this] H Body Threw show ?thesis by auto
    next
      case (Returned s3)
      with displayAnalysis_keeps [of result ?s2] have k: "buttons s3 = buttons ?s2" by simp
      show ?thesis
      proof (cases "get_prop result ''summary''")
        case None
        with fail [OF k] H Body Returned show ?thesis by auto
      next
        case (Some summary)
        with H Body Returned
        have "state_of (handleDocumentAnalysis r s)
                = hideLoading ''analyze-document'' (offerAudioVersion summary s3)"
          by simp
        moreover have "buttons (offerAudioVersion summary s3) = buttons ?s1"
          using k s2 by (simp add: offerAudioVersion_def)
        ultimately show ?thesis by blast
      qed
    qed
  qed
qed

lemma cleared_after_hide:
  assumes "s' = hideLoading i x" and "buttons x = buttons (showLoading i s)"
  shows "(\<forall>b. buttons s' i = Some b \<longrightarrow> \<not> loading b \<and> \<not> disabled b) \<and>
         (buttons s' i = None) = (buttons s i = None)"
  using hide_after_show [OF assms(2)] assms(1) by (cases "buttons s i") auto








text \<open>
  Claim C9. Whenever \<^verbatim>\<open>handleDocumentAnalysis\<close> or \<^verbatim>\<open>handleDocumentGeneration\<close>
  gets past its checks, and so sets the loading state on its button, the button is
  there at the end as it was at the start, without the \<^verbatim>\<open>loading\<close> class and not
  disabled, whatever comes back for the request: a network failure, a body that is not
  JSON, a result that cannot be displayed, or a result that is displayed, and also when
  \<^verbatim>\<open>showError\<close> itself fails.
\<close>

theorem loading_cleared_on_completion:
  "(field_values s ''document-text'' = Some documentText \<and>
    field_values s ''document-type'' = Some documentType \<and>
    field_values s ''document-jurisdiction'' = Some docJurisdiction \<and>
    field_values s ''document-language'' = Some language \<and>
    \<not> blank documentText \<longrightarrow>
      (\<forall>b. buttons (state_of (handleDocumentAnalysis r s)) ''analyze-document'' = Some b \<longrightarrow>
           \<not> loading b \<and> \<not> disabled b) \<and>
      (buttons (state_of (handleDocumentAnalysis r s)) ''analyze-document'' = None)
        = (buttons s ''analyze-document'' = None)) \<and>
   (field_values s ''template-select'' = Some templateKey \<and>
    field_values s ''jurisdiction'' = Some jurisdiction \<and>
    field_values s ''document-language'' = Some language \<and>
    templateKey \<noteq> [] \<and> jurisdiction \<noteq> [] \<and>
    getTemplateParameters templateKey = Some params \<and>
    collect_parameters s params = Some parameters \<longrightarrow>
      (\<forall>b. buttons (state_of (handleDocumentGeneration r' s)) ''generate-document'' = Some b \<longrightarrow>
           \<not> loading b \<and> \<not> disabled b) \<and>
      (buttons (state_of (handleDocumentGeneration r' s)) ''generate-document'' = None)
        = (buttons s ''generate-document'' = None))"
proof (intro conjI impI)
  assume a: "field_values s ''document-text'' = Some documentText \<and>
    field_values s ''document-type'' = Some documentType \<and>
    field_values s ''document-jurisdiction'' = Some docJurisdiction \<and>
    field_values s ''document-language'' = Some language \<and>
    \<not> blank documentText"
  then obtain x where "state_of (handleDocumentAnalysis r s) = hideLoading ''analyze-document'' x"
    "buttons x = buttons (showLoading ''analyze-document'' s)"
    using analysis_outcome [of s documentText documentType docJurisdiction language r] by blast
  from cleared_after_hide [OF this]
  show "\<forall>b. buttons (state_of (handleDocumentAnalysis r s)) ''analyze-document'' = Some b \<longrightarrow>
           \<not> loading b \<and> \<not> disabled b"
    and "(buttons (state_of (handleDocumentAnalysis r s)) ''analyze-document'' = None)
        = (buttons s ''analyze-document'' = None)"
    by blast+
next
  assume a: "field_values s ''template-select'' = Some templateKey \<and>
    field_values s ''jurisdiction'' = Some jurisdiction \<and>
    field_values s ''document-language'' = Some language \<and>
    templateKey \<noteq> [] \<and> jurisdiction \<noteq> [] \<and>
    getTemplateParameters templateKey = Some params \<and>
    collect_parameters s params = Some parameters"
  then obtain x where "state_of (handleDocumentGeneration r' s) = hideLoading ''generate-document'' x"
    "buttons x = buttons (showLoading ''generate-document'' s)"
    using generation_outcome [of s templateKey jurisdiction language params parameters r'] by blast
  from cleared_after_hide [OF this]
  show "\<forall>b. buttons (state_of (handleDocumentGeneration r' s)) ''generate-document'' = Some b \<longrightarrow>
           \<not> loading b \<and> \<not> disabled b"
    and "(buttons (state_of (handleDocumentGeneration r' s)) ''generate-document'' = None)
        = (buttons s ''generate-document'' = None)"
    by blast+
qed

theorem loading_cleared_on_completion_witness:
  "buttons (state_of (handleDocumentAnalysis NetworkError nda_form)) ''analyze-document''
     = Some \<lparr>loading = False, disabled = False\<rparr> \<and>
   buttons (state_of (handleDocumentGeneration
      (Body (JObj [(''document'', JStr ''NON-DISCLOSURE AGREEMENT'')])) nda_form))
      ''generate-document''
     = Some \<lparr>loading = False, disabled = False\<rparr>"
proof -
  let ?r = "Body (JObj [(''document'', JStr ''NON-DISCLOSURE AGREEMENT'')])"
  let ?ps = "[(''party1'', ''Acme Ltd''), (''party2'', ''Bolt Inc''),
              (''confidentiality_period'', ''12''), (''purpose'', ''Evaluation'')]"
  have a: "field_values nda_form ''document-text''
             = Some ''This agreement is made between the parties.'' \<and>
    field_values nda_form ''document-type'' = Some ''contract'' \<and>
    field_values nda_form ''document-jurisdiction'' = Some [] \<and>
    field_values nda_form ''document-language'' = Some [] \<and>
    \<not> blank ''This agreement is made between the parties.''"
    by (simp add: nda_form_def blank_def is_space_def)
  have g: "field_values nda_form ''template-select'' = Some ''nda'' \<and>
    field_values nda_form ''jurisdiction'' = Some ''us'' \<and>
    field_values nda_form ''document-language'' = Some [] \<and>
    ''nda'' \<noteq> [] \<and> ''us'' \<noteq> [] \<and>
    getTemplateParameters ''nda'' = Some (the (getTemplateParameters ''nda'')) \<and>
    collect_parameters nda_form (the (getTemplateParameters ''nda'')) = Some ?ps"
    by (simp add: nda_form_def getTemplateParameters_def)
  note t = loading_cleared_on_completion [of nda_form
      "''This agreement is made between the parties.''" "''contract''" "[]" "[]" NetworkError
      "''nda''" "''us''" "the (getTemplateParameters ''nda'')" ?ps ?r]
  from t a have 1: "\<forall>b. buttons (state_of (handleDocumentAnalysis NetworkError nda_form))
        ''analyze-document'' = Some b \<longrightarrow> \<not> loading b \<and> \<not> disabled b"
    and 2: "(buttons (state_of (handleDocumentAnalysis NetworkError nda_form))
        ''analyze-document'' = None) = (buttons nda_form ''analyze-document'' = None)"
    by blast+
  from t g have 3: "\<forall>b. buttons (state_of (handleDocumentGeneration ?r nda_form))
        ''generate-document'' = Some b \<longrightarrow> \<not> loading b \<and> \<not> disabled b"
    and 4: "(buttons (state_of (handleDocumentGeneration ?r nda_form))
        ''generate-document'' = None) = (buttons nda_form ''generate-document'' = None)"
    by blast+
  have e: "b = \<lparr>loading = False, disabled = False\<rparr>" if "\<not> loading b" "\<not> disabled b"
    for b :: button
    using that by (cases b) simp
  from 2 obtain b1 where b1: "buttons (state_of (handleDocumentAnalysis NetworkError nda_form))
        ''analyze-document'' = Some b1"
    by (auto simp: nda_form_def)
  from 4 obtain b2 where b2: "buttons (state_of (handleDocumentGeneration ?r nda_form))
        ''generate-document'' = Some b2"
    by (auto simp: nda_form_def)
  from 1 b1 e [of b1] 3 b2 e [of b2] show ?thesis by simp
qed

section \<open>Reconnection of the news socket\<close>

lemma news_inv_start: "news_inv (news_start t ok)"
  by (simp add: news_inv_def news_start_def setupNewsWebSocket_def Let_def)

lemma news_inv_closed:
  assumes "news_inv s" and "k \<in> set (live s)"
  shows "news_inv (onclose k t s)"
proof -
  from assms have l: "live s = [k]" and t: "timers s = []"
    by (cases "live s"; cases "timers s"; auto simp: news_inv_def)+
  from assms(1) t have n: "length (opens s) = Suc (length (closures s))"
    by (simp add: news_inv_def)
  have "closures s ! i + 5000 \<le> opens s ! Suc i" if "Suc i < length (opens s)" for i
    using assms(1) that by (simp add: news_inv_def)
  moreover have "(closures s @ [t]) ! i = closures s ! i" if "Suc i < length (opens s)" for i
    using that n by (simp add: nth_append)
  ultimately show ?thesis
    using l t n by (simp add: news_inv_def onclose_def)
qed

lemma news_inv_timer:
  assumes "news_inv s" and "timers s = due # rest" and "due \<le> t"
  shows "news_inv (setupNewsWebSocket t ok (s\<lparr>timers := rest\<rparr>))"
proof -
  from assms(1,2) have r: "rest = []" and l: "live s = []"
    by (auto simp: news_inv_def)
  from assms(1,2) have c: "closures s \<noteq> []" and d: "due = last (closures s) + 5000"
    by (auto simp: news_inv_def)
  from assms(1,2) have n: "length (opens s) = length (closures s)"
    by (auto simp: news_inv_def)
  have old: "closures s ! i + 5000 \<le> opens s ! Suc i" if "Suc i < length (opens s)" for i
    using assms(1) that by (simp add: news_inv_def)
  have "closures s ! i + 5000 \<le> (opens s @ [t]) ! Suc i" if "Suc i < Suc (length (opens s))" for i
  proof (cases "Suc i < length (opens s)")
    case True
    with old [OF True] show ?thesis by (simp add: nth_append)
  next
    case False
    with that have i: "Suc i = length (opens s)" by simp
    with n have "i = length (closures s) - 1" by simp
    with c have "closures s ! i = last (closures s)"
      by (simp add: last_conv_nth)
    with i d assms(3) show ?thesis by (simp add: nth_append)
  qed
  then show ?thesis
    using r l n by (simp add: news_inv_def setupNewsWebSocket_def Let_def)
qed

lemma news_inv_step: "news_inv s \<Longrightarrow> news_step ev s = Some s' \<Longrightarrow> news_inv s'"
proof (cases ev)
  case (SocketClosed k t)
  assume "news_inv s" "news_step ev s = Some s'"
  with SocketClosed show ?thesis
    by (auto simp: news_inv_closed split: if_splits)
next
  case (TimerFired t ok)
  assume "news_inv s" "news_step ev s = Some s'"
  with TimerFired show ?thesis
    by (auto simp: news_inv_timer split: list.splits if_splits)
qed

lemma news_inv_run: "news_inv s \<Longrightarrow> news_run evs s = Some s' \<Longrightarrow> news_inv s'"
proof (induction evs arbitrary: s)
  case Nil
  then show ?case by simp
next
  case (Cons ev evs)
  from Cons.prems(2) obtain s1 where s1: "news_step ev s = Some s1" "news_run evs s1 = Some s'"
    by (auto split: option.splits)
  from news_inv_step [OF Cons.prems(1) s1(1)] Cons.IH s1(2) show ?case by blast
qed

lemma news_run_append:
  "news_run (evs @ evs') s = (case news_run evs s of None \<Rightarrow> None | Some s' \<Rightarrow> news_run evs' s')"
  by (induction evs arbitrary: s) (auto split: option.splits)

text \<open>
  For every \<^verbatim>\<open>n\<close> there is a run with \<^verbatim>\<open>n\<close> closures, each followed by its
  timer, that ends with socket \<^verbatim>\<open>n\<close> live: nothing stops the retries.
\<close>

lemma news_retries_unbounded:
  "\<exists>evs s. news_run evs (news_start t0 True) = Some s \<and> length (closures s) = n \<and>
     length (opens s) = Suc n \<and> live s = [n] \<and> timers s = []"
proof (induction n)
  case 0
  have "news_run [] (news_start t0 True) = Some (news_start t0 True)" by simp
  moreover have "length (closures (news_start t0 True)) = 0"
    "length (opens (news_start t0 True)) = Suc 0" "live (news_start t0 True) = [0]"
    "timers (news_start t0 True) = []"
    by (simp_all add: news_start_def setupNewsWebSocket_def Let_def)
  ultimately show ?case by blast
next
  case (Suc n)
  then obtain evs s where s: "news_run evs (news_start t0 True) = Some s"
    "length (closures s) = n" "length (opens s) = Suc n" "live s = [n]" "timers s = []"
    by blast
  let ?s' = "setupNewsWebSocket 5000 True ((onclose n 0 s)\<lparr>timers := []\<rparr>)"
  have "news_run [SocketClosed n 0, TimerFired 5000 True] s = Some ?s'"
    using s(4,5) by (simp add: onclose_def)
  with s(1) have "news_run (evs @ [SocketClosed n 0, TimerFired 5000 True]) (news_start t0 True)
      = Some ?s'"
    by (simp add: news_run_append)
  moreover have "length (closures ?s') = Suc n" "length (opens ?s') = Suc (Suc n)"
    "live ?s' = [Suc n]" "timers ?s' = []"
    using s(2-5) by (simp_all add: setupNewsWebSocket_def onclose_def Let_def)
  ultimately show ?case by blast
qed

text \<open>
  Claim C4. In every state the news client can reach, by any number of closures and
  timers: there are at least as many opens as closures; every closure has led to one
  open or has one timer pending; every open after the first came at least 5000 ms after
  the closure before it; and when a live socket closes at \<^verbatim>\<open>t\<close>, exactly one timer
  is pending, due at \<^verbatim>\<open>t + 5000\<close>, which cannot fire earlier and, when it fires, makes
  one more open, whose socket is live again (it carries the handler) unless
  \<^verbatim>\<open>new WebSocket\<close> threw. The first socket is live too, so the cycle goes on
  without end: for every \<^verbatim>\<open>n\<close> there is a run with \<^verbatim>\<open>n\<close> closures and
  \<^verbatim>\<open>n + 1\<close> opens.
\<close>

theorem news_socket_reconnects:
  assumes "news_run evs (news_start t0 ok0) = Some s"
  shows "length (closures s) \<le> length (opens s) \<and>
         length (opens s) + length (timers s) = Suc (length (closures s)) \<and>
         (\<forall>i. Suc i < length (opens s) \<longrightarrow> closures s ! i + 5000 \<le> opens s ! Suc i) \<and>
         live (news_start t0 True) = [0] \<and>
         (\<forall>k t t' ok. k \<in> set (live s) \<longrightarrow>
            news_step (SocketClosed k t) s = Some (onclose k t s) \<and>
            timers (onclose k t s) = [t + 5000] \<and>
            (t' < t + 5000 \<longrightarrow> news_step (TimerFired t' ok) (onclose k t s) = None) \<and>
            (t + 5000 \<le> t' \<longrightarrow>
               (\<exists>s'. news_step (TimerFired t' ok) (onclose k t s) = Some s' \<and>
                     opens s' = opens s @ [t'] \<and> closures s' = closures s @ [t] \<and>
                     timers s' = [] \<and>
                     live s' = (if ok then [length (opens s)] else [])))) \<and>
         (\<forall>n. \<exists>evs' s'. news_run evs' (news_start t0 True) = Some s' \<and>
                length (closures s') = n \<and> length (opens s') = Suc n \<and> live s' = [n])"
proof -
  from news_inv_run [OF news_inv_start assms] have inv: "news_inv s" .
  then have a: "length (closures s) \<le> length (opens s)"
    and b: "length (opens s) + length (timers s) = Suc (length (closures s))"
    and c: "\<forall>i. Suc i < length (opens s) \<longrightarrow> closures s ! i + 5000 \<le> opens s ! Suc i"
    by (auto simp: news_inv_def)
  have first: "live (news_start t0 True) = [0]"
    by (simp add: news_start_def setupNewsWebSocket_def Let_def)
  have d: "news_step (SocketClosed k t) s = Some (onclose k t s) \<and>
            timers (onclose k t s) = [t + 5000] \<and>
            (t' < t + 5000 \<longrightarrow> news_step (TimerFired t' ok) (onclose k t s) = None) \<and>
            (t + 5000 \<le> t' \<longrightarrow>
               (\<exists>s'. news_step (TimerFired t' ok) (onclose k t s) = Some s' \<and>
                     opens s' = opens s @ [t'] \<and> closures s' = closures s @ [t] \<and>
                     timers s' = [] \<and>
                     live s' = (if ok then [length (opens s)] else [])))"
    if k: "k \<in> set (live s)" for k t t' ok
  proof -
    from inv k have tl: "timers s = []" "live s = [k]"
      by (cases "live s"; cases "timers s"; auto simp: news_inv_def)+
    then have tm: "timers (onclose k t s) = [t + 5000]"
      by (simp add: onclose_def)
    then show ?thesis
      using k tl by (simp add: setupNewsWebSocket_def Let_def) (simp add: onclose_def)
  qed
  have e: "\<exists>evs' s'. news_run evs' (news_start t0 True) = Some s' \<and>
                length (closures s') = n \<and> length (opens s') = Suc n \<and> live s' = [n]" for n
    using news_retries_unbounded [of t0 n] by blast
  from a b c first d e show ?thesis by blast
qed

theorem news_socket_reconnects_witness:
  "news_run [SocketClosed 0 7000, TimerFired 12000 True, SocketClosed 1 12500,
             TimerFired 17503 True] (news_start 1000 True)
     = Some \<lparr>opens = [1000, 12000, 17503], live = [2], timers = [],
             closures = [7000, 12500]\<rparr> \<and>
   length (closures \<lparr>opens = [1000, 12000, 17503], live = [2], timers = [],
             closures = [7000, 12500]\<rparr>)
     \<le> length (opens \<lparr>opens = [1000, 12000, 17503], live = [2], timers = [],
             closures = [7000, 12500]\<rparr>) \<and>
   news_step (TimerFired 25000 True)
     (onclose 2 20000 \<lparr>opens = [1000, 12000, 17503], live = [2], timers = [],
             closures = [7000, 12500]\<rparr>)
     = Some \<lparr>opens = [1000, 12000, 17503, 25000], live = [3], timers = [],
             closures = [7000, 12500, 20000]\<rparr>"
proof -
  let ?s = "\<lparr>opens = [1000, 12000, 17503], live = [2], timers = [], closures = [7000, 12500::int]\<rparr>"
  have run: "news_run [SocketClosed 0 7000, TimerFired 12000 True, SocketClosed 1 12500,
             TimerFired 17503 True] (news_start 1000 True) = Some ?s"
    by (simp add: news_start_def setupNewsWebSocket_def onclose_def Let_def)
  note t = news_socket_reconnects [OF run]
  from t have 1: "length (closures ?s) \<le> length (opens ?s)" by blast
  have k: "2 \<in> set (live ?s)" by simp
  from t k have "20000 + 5000 \<le> (25000::int) \<longrightarrow>
      (\<exists>s'. news_step (TimerFired 25000 True) (onclose 2 20000 ?s) = Some s' \<and>
            opens s' = opens ?s @ [25000] \<and> closures s' = closures ?s @ [20000] \<and>
            timers s' = [] \<and> live s' = (if True then [length (opens ?s)] else []))"
    by blast
  then obtain s' where s': "news_step (TimerFired 25000 True) (onclose 2 20000 ?s) = Some s'"
    "opens s' = opens ?s @ [25000]" "closures s' = closures ?s @ [20000]"
    "timers s' = []" "live s' = [length (opens ?s)]"
    by auto
  have "s' = \<lparr>opens = [1000, 12000, 17503, 25000], live = [3], timers = [],
             closures = [7000, 12500, 20000]\<rparr>"
    using s'(2-5) by (cases s') simp
  with s'(1) have 2: "news_step (TimerFired 25000 True) (onclose 2 20000 ?s)
     = Some \<lparr>opens = [1000, 12000, 17503, 25000], live = [3], timers = [],
             closures = [7000, 12500, 20000]\<rparr>"
    by simp
  from run 1 2 show ?thesis by simp
qed

end
